theory Spec2Isabelle
  imports Main "HOL-Library.Word"
begin

section \<open>MindMirror: the AI analysis gateway and the reflection routes\<close>

text \<open>
  The repository ships two variants of \<^verbatim>\<open>gemini.js\<close> and of the analysis routes:
  the first retries rate-limited model calls and accepts audio, the second (its own
  comments call it text-only and stable) calls the model once through \<^verbatim>\<open>callGemini\<close>.
  Names of the second variant carry the suffix \<open>_textonly\<close>.

  The model service, \<^verbatim>\<open>JSON.parse\<close>, the clock and Firestore are not code of the
  repository: they are collected in an environment record, and every call the code makes
  to them is logged in a trace, so that "the model was called", "the task slept" and
  "the store was written" are facts about the returned world.

  Strings are lists of code units below 256; everything thrown by the runtime or by a
  library is an \<^verbatim>\<open>Error\<close> object with a string message; the fields of a request
  body and the \<open>userId\<close> and \<open>date\<close> of a stored reflection are strings, as the data
  model of the specification types them.
\<close>

subsection \<open>Strings\<close>

definition startsWith :: "string \<Rightarrow> string \<Rightarrow> bool" where
  "startsWith s t = (take (length t) s = t)"

text \<open>\<^verbatim>\<open>s.includes(t)\<close>: \<open>t\<close> occurs in \<open>s\<close> as a contiguous run.\<close>

fun str_includes :: "string \<Rightarrow> string \<Rightarrow> bool" where
  "str_includes [] t = (t = [])"
| "str_includes (c # cs) t = (startsWith (c # cs) t \<or> str_includes cs t)"

subsection \<open>Errors, requests and the world\<close>

datatype js_error = Error (message: string)

text \<open>
  What a \<^verbatim>\<open>throw\<close> can carry in \<^verbatim>\<open>retryWithBackoff\<close>: an error, or
  \<^verbatim>\<open>undefined\<close> when \<^verbatim>\<open>lastError\<close> was never assigned.
\<close>

datatype thrown = Thrown js_error | ThrownUndefined

text \<open>
  A value that \<^verbatim>\<open>JSON.parse\<close> returns. Numbers are carried as their IEEE-754 bits;
  nothing in the code inspects them. The keys of an object are distinct.
\<close>

datatype json =
    JNull
  | JBool bool
  | JNumber "64 word"
  | JString string
  | JArray "json list"
  | JObject "(string \<times> json) list"

text \<open>
  A \<^verbatim>\<open>Date\<close>, by its UTC calendar fields.
\<close>

record utc_time =
  year :: int
  month :: nat
  day :: nat
  hours :: nat
  minutes :: nat
  seconds :: nat
  milliseconds :: nat

text \<open>
  A document of the \<^verbatim>\<open>reflections\<close> collection. The six analysis fields are copied
  unvalidated from the model's answer; \<open>None\<close> is a field that is \<^verbatim>\<open>undefined\<close>.
\<close>

type_synonym doc_id = string

record reflection =
  userId :: string
  date :: string
  transcript :: "json option"
  primaryEmotion :: "json option"
  secondaryEmotion :: "json option"
  theme :: "json option"
  emotionalIntensity :: "json option"
  dailyInsight :: "json option"
  createdAt :: utc_time

text \<open>
  One entry of a weekly summary, as \<^verbatim>\<open>reflections.map\<close> builds it.
\<close>

record summary =
  s_date :: "json option"
  s_primaryEmotion :: "json option"
  s_secondaryEmotion :: "json option"
  s_theme :: "json option"
  s_intensity :: "json option"
  s_transcript :: "json option"

text \<open>
  A request to \<^verbatim>\<open>model.generateContent\<close>. The prompt templates are fixed text; a request
  is identified by its template and by the values spliced into it. The audio request
  carries the buffer (sent base64-encoded) and its MIME type beside the prompt; the first
  variant's weekly prompt also quotes the number of reflections.
\<close>

datatype request =
    AudioPrompt "8 word list" string
  | WeeklyPrompt nat "summary list"
  | TextPrompt string
  | TextPrompt_textonly string
  | WeeklyPrompt_textonly "summary list"

text \<open>
  \<^verbatim>\<open>result.response.text()\<close> either yields the text or throws.
\<close>

type_synonym response = "js_error + string"

text \<open>
  The body of \<^verbatim>\<open>POST /api/analyze-daily\<close> (\<^verbatim>\<open>req.file\<close> is the uploaded buffer and
  its MIME type) and of \<^verbatim>\<open>DELETE /api/reflection/:id\<close>. A field that was not sent is
  \<open>None\<close>.
\<close>

record daily_request =
  req_userId :: "string option"
  req_date :: "string option"
  req_textInput :: "string option"
  req_file :: "(8 word list \<times> string) option"

record delete_request =
  del_id :: doc_id
  del_userId :: "string option"

text \<open>
  Console output, one constructor per \<^verbatim>\<open>console.log\<close> / \<^verbatim>\<open>console.error\<close> call
  site, with the values it prints.
\<close>

datatype console_line =
    RateLimitedRetrying int nat int
  | AnalysisErrorLine string thrown
  | RawGeminiResponse string
  | JsonParseError string
  | ErrorMessageLine string string
  | ReqBody daily_request
  | RouteErrorLine string js_error

datatype db_op = Add reflection | Get doc_id | Delete doc_id

datatype event =
    Generate request
  | Sleep int
  | Console console_line
  | Now
  | Firestore db_op

text \<open>
  The world: the trace of effects so far and the \<^verbatim>\<open>reflections\<close> collection, one entry
  per document id.
\<close>

record world =
  trace :: "event list"
  docs :: "(doc_id \<times> reflection) list"

text \<open>
  The environment. \<open>gemini k req\<close> is what the \<open>k\<close>-th call of
  \<^verbatim>\<open>model.generateContent\<close> (counted from 0) does when it is given \<open>req\<close>;
  \<open>JSON_parse\<close> is \<^verbatim>\<open>JSON.parse\<close>, \<open>Inl\<close> its \<^verbatim>\<open>SyntaxError\<close>; \<open>clock k\<close> is
  the \<open>k\<close>-th \<^verbatim>\<open>new Date()\<close>; \<open>firestore_fault k op\<close> is the error, if any, with
  which the \<open>k\<close>-th Firestore call rejects \<open>op\<close> (an outage, or a document it refuses,
  such as one with \<^verbatim>\<open>undefined\<close> fields under the default settings); \<open>auto_id k\<close> is
  the document id that Firestore generates when that call is an \<^verbatim>\<open>add\<close>.
\<close>

record env =
  gemini :: "nat \<Rightarrow> request \<Rightarrow> js_error + response"
  JSON_parse :: "string \<Rightarrow> js_error + json"
  clock :: "nat \<Rightarrow> utc_time"
  firestore_fault :: "nat \<Rightarrow> db_op \<Rightarrow> js_error option"
  auto_id :: "nat \<Rightarrow> doc_id"

definition emit :: "event \<Rightarrow> world \<Rightarrow> world" where
  "emit e w = w\<lparr>trace := trace w @ [e]\<rparr>"

definition is_Generate :: "event \<Rightarrow> bool" where
  "is_Generate e = (case e of Generate _ \<Rightarrow> True | _ \<Rightarrow> False)"

definition generate_count :: "world \<Rightarrow> nat" where
  "generate_count w = length (filter is_Generate (trace w))"

definition sleeps :: "world \<Rightarrow> int list" where
  "sleeps w = concat (map (\<lambda>e. case e of Sleep d \<Rightarrow> [d] | _ \<Rightarrow> []) (trace w))"

definition generateContent :: "env \<Rightarrow> request \<Rightarrow> world \<Rightarrow> (js_error + response) \<times> world" where
  "generateContent e req w = (gemini e (generate_count w) req, emit (Generate req) w)"

subsection \<open>The backoff retrier (first variant)\<close>

definition sleep :: "int \<Rightarrow> world \<Rightarrow> world" where
  "sleep ms w = emit (Sleep ms) w"

definition rate_limit_signal :: "js_error \<Rightarrow> bool" where
  "rate_limit_signal error =
     (str_includes (message error) ''429'' \<or>
      str_includes (message error) ''Too Many Requests'' \<or>
      str_includes (message error) ''RESOURCE_EXHAUSTED'')"

text \<open>
  The \<^verbatim>\<open>for\<close> loop of \<^verbatim>\<open>retryWithBackoff\<close>, entered at \<open>attempt\<close> with the
  current \<^verbatim>\<open>lastError\<close>. The operation \<open>fn\<close> is any effectful call: it takes the
  world and returns its outcome and the world it leaves.
\<close>

function retry_loop ::
  "(world \<Rightarrow> (js_error + 'a) \<times> world) \<Rightarrow> int \<Rightarrow> int \<Rightarrow> nat \<Rightarrow> thrown \<Rightarrow> world
     \<Rightarrow> (thrown + 'a) \<times> world" where
  "retry_loop fn maxRetries initialDelay attempt lastError w =
     (if int attempt < maxRetries then
        (case fn w of
           (Inr v, w') \<Rightarrow> (Inr v, w')
         | (Inl error, w') \<Rightarrow>
             (let isRateLimited = rate_limit_signal error in
              if isRateLimited \<and> int attempt < maxRetries - 1 then
                (let delay = initialDelay * 2 ^ attempt in
                 retry_loop fn maxRetries initialDelay (attempt + 1) (Thrown error)
                   (sleep delay
                     (emit (Console (RateLimitedRetrying delay (attempt + 1) maxRetries)) w')))
              else if \<not> isRateLimited then (Inl (Thrown error), w')
              else retry_loop fn maxRetries initialDelay (attempt + 1) (Thrown error) w'))
      else (Inl lastError, w))"
  by pat_completeness auto
termination
  by (relation "measure (\<lambda>(fn, maxRetries, initialDelay, attempt, lastError, w).
        nat (maxRetries - int attempt))") auto

declare retry_loop.simps [simp del]

definition retryWithBackoff ::
  "(world \<Rightarrow> (js_error + 'a) \<times> world) \<Rightarrow> int \<Rightarrow> int \<Rightarrow> world \<Rightarrow> (thrown + 'a) \<times> world" where
  "retryWithBackoff fn maxRetries initialDelay w =
     retry_loop fn maxRetries initialDelay 0 ThrownUndefined w"

text \<open>
  What the retrier does between two attempts: it prints the notice and sleeps.
\<close>

definition backoff :: "int \<Rightarrow> nat \<Rightarrow> int \<Rightarrow> world \<Rightarrow> world" where
  "backoff delay n maxRetries w =
     sleep delay (emit (Console (RateLimitedRetrying delay n maxRetries)) w)"

text \<open>
  The world in which attempt \<open>n\<close> (counted from 0) calls the operation when every
  earlier attempt took the retry branch: each of them is followed by the notice and the
  sleep of line 36-38.
\<close>

primrec attempt_world ::
  "(world \<Rightarrow> (js_error + 'a) \<times> world) \<Rightarrow> int \<Rightarrow> int \<Rightarrow> nat \<Rightarrow> world \<Rightarrow> world" where
  "attempt_world fn maxRetries initialDelay 0 w = w"
| "attempt_world fn maxRetries initialDelay (Suc n) w =
     backoff (initialDelay * 2 ^ n) (Suc n) maxRetries
       (snd (fn (attempt_world fn maxRetries initialDelay n w)))"

subsection \<open>Extracting the JSON text of a response\<close>

text \<open>
  \<^verbatim>\<open>\s\<close> and \<^verbatim>\<open>trim()\<close> share one class of characters: tab, line feed, vertical
  tab, form feed, carriage return, space and no-break space (the members below 256).
\<close>

definition js_space :: "char \<Rightarrow> bool" where
  "js_space c = (c \<in> set [CHR 0x09, CHR 0x0A, CHR 0x0B, CHR 0x0C, CHR 0x0D, CHR 0x20, CHR 0xA0])"

definition trim :: "string \<Rightarrow> string" where
  "trim s = rev (dropWhile js_space (rev (dropWhile js_space s)))"

definition fence :: string where
  "fence = ''```''"

text \<open>
  The regular expression \<^verbatim>\<open>/```(?:json)?\s*([\s\S]*?)```/\<close> of the first variant, as
  the backtracking matcher runs it. \<open>lazy_capture\<close> is the group \<^verbatim>\<open>([\s\S]*?)\<close>
  followed by the closing fence: it tries the shortest capture first and takes one more
  character when the fence does not follow. \<open>greedy_space\<close> is \<^verbatim>\<open>\s*\<close> followed by
  the rest: it takes a space character when it can and gives it back when the rest fails.
  \<open>match_here\<close> is the whole pattern at one position, \<^verbatim>\<open>(?:json)?\<close> preferring to take
  the word; \<open>jsonMatch\<close> tries every position from the left and returns group 1.
\<close>

fun lazy_capture :: "string \<Rightarrow> string option" where
  "lazy_capture [] = (if startsWith [] fence then Some [] else None)"
| "lazy_capture (c # cs) =
     (if startsWith (c # cs) fence then Some []
      else map_option ((#) c) (lazy_capture cs))"

fun greedy_space :: "string \<Rightarrow> string option" where
  "greedy_space [] = lazy_capture []"
| "greedy_space (c # cs) =
     (if js_space c then
        (case greedy_space cs of Some m \<Rightarrow> Some m | None \<Rightarrow> lazy_capture (c # cs))
      else lazy_capture (c # cs))"

definition match_here :: "string \<Rightarrow> string option" where
  "match_here s =
     (if startsWith s fence then
        (let r = drop (length fence) s in
         case (if startsWith r ''json'' then greedy_space (drop 4 r) else None) of
           Some m \<Rightarrow> Some m
         | None \<Rightarrow> greedy_space r)
      else None)"

fun jsonMatch :: "string \<Rightarrow> string option" where
  "jsonMatch [] = match_here []"
| "jsonMatch (c # cs) =
     (case match_here (c # cs) of Some m \<Rightarrow> Some m | None \<Rightarrow> jsonMatch cs)"

text \<open>
  The second variant's \<^verbatim>\<open>/```(?:json)?([\s\S]*?)```/\<close> has no \<^verbatim>\<open>\s*\<close>.
\<close>

definition match_here_textonly :: "string \<Rightarrow> string option" where
  "match_here_textonly s =
     (if startsWith s fence then
        (let r = drop (length fence) s in
         case (if startsWith r ''json'' then lazy_capture (drop 4 r) else None) of
           Some m \<Rightarrow> Some m
         | None \<Rightarrow> lazy_capture r)
      else None)"

fun match_textonly :: "string \<Rightarrow> string option" where
  "match_textonly [] = match_here_textonly []"
| "match_textonly (c # cs) =
     (case match_here_textonly (c # cs) of Some m \<Rightarrow> Some m | None \<Rightarrow> match_textonly cs)"

text \<open>
  The string handed to \<^verbatim>\<open>JSON.parse\<close> (lines 91-98, again at 176-182 and 237-243):
  group 1 when the pattern matches, the whole text otherwise, then trimmed.
\<close>

definition jsonStr :: "string \<Rightarrow> string" where
  "jsonStr responseText =
     trim (case jsonMatch responseText of Some m \<Rightarrow> m | None \<Rightarrow> responseText)"

definition extract_json :: "env \<Rightarrow> string \<Rightarrow> js_error + json" where
  "extract_json e responseText = JSON_parse e (jsonStr responseText)"

subsection \<open>The gateway, first variant\<close>

text \<open>
  What the three functions return: \<^verbatim>\<open>{success: true, data}\<close>,
  \<^verbatim>\<open>{success: false, error}\<close> or \<^verbatim>\<open>{success: false, error, isRateLimited: true}\<close>.
  A property that the object lacks is \<open>None\<close>, or \<open>False\<close> for the flag.
\<close>

record analysis_result =
  success :: bool
  data :: "json option"
  error :: "string option"
  isRateLimited :: bool

definition succeeded :: "json \<Rightarrow> analysis_result" where
  "succeeded analysis = \<lparr>success = True, data = Some analysis, error = None, isRateLimited = False\<rparr>"

definition failed :: "string \<Rightarrow> analysis_result" where
  "failed msg = \<lparr>success = False, data = None, error = Some msg, isRateLimited = False\<rparr>"

definition busy :: analysis_result where
  "busy = \<lparr>success = False, data = None,
     error = Some ''The AI service is temporarily busy. Please wait a moment and try again.'',
     isRateLimited = True\<rparr>"

text \<open>
  The \<^verbatim>\<open>try\<close> block shared by the three functions: the model call under the retrier
  with its default arguments, \<^verbatim>\<open>result.response.text()\<close>, the extraction.
\<close>

definition attempt_analysis :: "env \<Rightarrow> request \<Rightarrow> world \<Rightarrow> (thrown + json) \<times> world" where
  "attempt_analysis e req w =
     (case retryWithBackoff (generateContent e req) 3 2000 w of
        (Inl t, w') \<Rightarrow> (Inl t, w')
      | (Inr (Inl err), w') \<Rightarrow> (Inl (Thrown err), w')
      | (Inr (Inr responseText), w') \<Rightarrow>
          (case extract_json e responseText of
             Inl err \<Rightarrow> (Inl (Thrown err), w')
           | Inr analysis \<Rightarrow> (Inr analysis, w')))"

text \<open>
  The \<^verbatim>\<open>catch\<close> block shared by the three functions. Reading \<^verbatim>\<open>error.message\<close> of
  \<^verbatim>\<open>undefined\<close> throws a \<^verbatim>\<open>TypeError\<close> out of the function.
\<close>

definition on_error :: "string \<Rightarrow> thrown \<Rightarrow> world \<Rightarrow> (js_error + analysis_result) \<times> world" where
  "on_error label t w =
     (let w' = emit (Console (AnalysisErrorLine label t)) w in
      case t of
        ThrownUndefined \<Rightarrow>
          (Inl (Error ''Cannot read properties of undefined (reading 'message')''), w')
      | Thrown err \<Rightarrow>
          (if str_includes (message err) ''429'' \<or> str_includes (message err) ''RESOURCE_EXHAUSTED''
           then (Inr busy, w')
           else (Inr (failed (message err)), w')))"

definition run_analysis ::
  "string \<Rightarrow> env \<Rightarrow> request \<Rightarrow> world \<Rightarrow> (js_error + analysis_result) \<times> world" where
  "run_analysis label e req w =
     (case attempt_analysis e req w of
        (Inr analysis, w') \<Rightarrow> (Inr (succeeded analysis), w')
      | (Inl t, w') \<Rightarrow> on_error label t w')"

definition analyzeAudioReflection ::
  "env \<Rightarrow> 8 word list \<Rightarrow> string \<Rightarrow> world \<Rightarrow> (js_error + analysis_result) \<times> world" where
  "analyzeAudioReflection e audioBuffer mimeType w =
     run_analysis ''Gemini analysis error:'' e (AudioPrompt audioBuffer mimeType) w"

definition analyzeTextReflection ::
  "env \<Rightarrow> string \<Rightarrow> world \<Rightarrow> (js_error + analysis_result) \<times> world" where
  "analyzeTextReflection e textInput w =
     run_analysis ''Text analysis error:'' e (TextPrompt textInput) w"

text \<open>
  \<^verbatim>\<open>analyzeWeeklyPatterns\<close> maps the reflections to summaries before its \<^verbatim>\<open>try\<close>
  block. \<^verbatim>\<open>r.transcript?.substring(0, 200)\<close> is \<^verbatim>\<open>undefined\<close> for a missing or null
  transcript, the first 200 code units of a string, and a \<^verbatim>\<open>TypeError\<close> for any other
  value, which has no \<^verbatim>\<open>substring\<close> method.
\<close>

definition summarize :: "reflection \<Rightarrow> js_error + summary" where
  "summarize r =
     (case (case transcript r of
              None \<Rightarrow> Inr None
            | Some JNull \<Rightarrow> Inr None
            | Some (JString t) \<Rightarrow> Inr (Some (JString (take 200 t)))
            | Some _ \<Rightarrow> Inl (Error ''r.transcript?.substring is not a function'')) of
        Inl err \<Rightarrow> Inl err
      | Inr excerpt \<Rightarrow>
          Inr \<lparr>s_date = Some (JString (date r)),
               s_primaryEmotion = primaryEmotion r,
               s_secondaryEmotion = secondaryEmotion r,
               s_theme = theme r,
               s_intensity = emotionalIntensity r,
               s_transcript = excerpt\<rparr>)"

fun summarize_all :: "reflection list \<Rightarrow> js_error + summary list" where
  "summarize_all [] = Inr []"
| "summarize_all (r # rs) =
     (case summarize r of
        Inl err \<Rightarrow> Inl err
      | Inr x \<Rightarrow> (case summarize_all rs of Inl err \<Rightarrow> Inl err | Inr xs \<Rightarrow> Inr (x # xs)))"

definition analyzeWeeklyPatterns ::
  "env \<Rightarrow> reflection list \<Rightarrow> world \<Rightarrow> (js_error + analysis_result) \<times> world" where
  "analyzeWeeklyPatterns e reflections w =
     (if length reflections = 0 then (Inr (failed ''No reflections to analyze''), w)
      else
        (case summarize_all reflections of
           Inl err \<Rightarrow> (Inl err, w)
         | Inr reflectionsSummary \<Rightarrow>
             run_analysis ''Weekly analysis error:'' e
               (WeeklyPrompt (length reflections) reflectionsSummary) w))"

subsection \<open>The gateway, text-only variant\<close>

text \<open>
  What the second variant hands to \<^verbatim>\<open>JSON.parse\<close> is \<^verbatim>\<open>jsonStr.trim()\<close>; what it
  prints when the parse fails is \<^verbatim>\<open>jsonStr\<close> itself.
\<close>

definition jsonStr_textonly :: "string \<Rightarrow> string" where
  "jsonStr_textonly text = (case match_textonly text of Some m \<Rightarrow> m | None \<Rightarrow> text)"

definition callGemini :: "env \<Rightarrow> request \<Rightarrow> world \<Rightarrow> (js_error + json) \<times> world" where
  "callGemini e prompt w =
     (case generateContent e prompt w of
        (Inl err, w') \<Rightarrow> (Inl err, w')
      | (Inr (Inl err), w') \<Rightarrow> (Inl err, w')
      | (Inr (Inr text), w') \<Rightarrow>
          (let w'' = emit (Console (RawGeminiResponse text)) w' in
           case JSON_parse e (trim (jsonStr_textonly text)) of
             Inr v \<Rightarrow> (Inr v, w'')
           | Inl err \<Rightarrow>
               (Inl (Error ''Invalid AI response format''),
                emit (Console (JsonParseError (jsonStr_textonly text))) w'')))"

definition analyzeTextReflection_textonly ::
  "env \<Rightarrow> string \<Rightarrow> world \<Rightarrow> analysis_result \<times> world" where
  "analyzeTextReflection_textonly e textInput w =
     (case callGemini e (TextPrompt_textonly textInput) w of
        (Inr v, w') \<Rightarrow> (succeeded v, w')
      | (Inl err, w') \<Rightarrow>
          (failed (message err),
           emit (Console (ErrorMessageLine ''TEXT ANALYSIS ERROR:'' (message err))) w'))"

definition summarize_textonly :: "reflection \<Rightarrow> summary" where
  "summarize_textonly r =
     \<lparr>s_date = Some (JString (date r)),
      s_primaryEmotion = primaryEmotion r,
      s_secondaryEmotion = secondaryEmotion r,
      s_theme = theme r,
      s_intensity = emotionalIntensity r,
      s_transcript = None\<rparr>"

definition analyzeWeeklyPatterns_textonly ::
  "env \<Rightarrow> reflection list \<Rightarrow> world \<Rightarrow> analysis_result \<times> world" where
  "analyzeWeeklyPatterns_textonly e reflections w =
     (if length reflections < 3 then (failed ''Not enough reflections for weekly analysis'', w)
      else
        (case callGemini e (WeeklyPrompt_textonly (map summarize_textonly reflections)) w of
           (Inr v, w') \<Rightarrow> (succeeded v, w')
         | (Inl err, w') \<Rightarrow>
             (failed (message err),
              emit (Console (ErrorMessageLine ''WEEKLY ANALYSIS ERROR:'' (message err))) w')))"

subsection \<open>The clock and the default date\<close>

text \<open>
  \<open>pad n k\<close> writes \<open>k\<close> in decimal on \<open>n\<close> digits, with leading zeros; the calendar
  fields of a \<^verbatim>\<open>Date\<close> fit their widths. \<^verbatim>\<open>toISOString\<close> gives a year between 0 and
  9999 four digits and any other year a sign and six digits.
\<close>

definition digit :: "nat \<Rightarrow> char" where
  "digit d = ''0123456789'' ! d"

fun pad :: "nat \<Rightarrow> nat \<Rightarrow> string" where
  "pad 0 k = []"
| "pad (Suc n) k = pad n (k div 10) @ [digit (k mod 10)]"

definition iso_year :: "int \<Rightarrow> string" where
  "iso_year y =
     (if 0 \<le> y \<and> y \<le> 9999 then pad 4 (nat y)
      else (if y < 0 then ''-'' else ''+'') @ pad 6 (nat \<bar>y\<bar>))"

definition toISOString :: "utc_time \<Rightarrow> string" where
  "toISOString t =
     iso_year (year t) @ ''-'' @ pad 2 (month t) @ ''-'' @ pad 2 (day t) @ ''T'' @
     pad 2 (hours t) @ '':'' @ pad 2 (minutes t) @ '':'' @ pad 2 (seconds t) @ ''.'' @
     pad 3 (milliseconds t) @ ''Z''"

definition is_Now :: "event \<Rightarrow> bool" where
  "is_Now ev = (case ev of Now \<Rightarrow> True | _ \<Rightarrow> False)"

definition new_Date :: "env \<Rightarrow> world \<Rightarrow> utc_time \<times> world" where
  "new_Date e w = (clock e (length (filter is_Now (trace w))), emit Now w)"

text \<open>
  \<^verbatim>\<open>x || ...\<close> and \<^verbatim>\<open>!x\<close> on a string that may be missing: the string counts when it
  was sent and is not empty.
\<close>

definition truthy :: "string option \<Rightarrow> string option" where
  "truthy x = (case x of None \<Rightarrow> None | Some v \<Rightarrow> if v = [] then None else Some v)"

text \<open>\<^verbatim>\<open>date || new Date().toISOString().split('T')[0]\<close>\<close>

definition dateStr :: "env \<Rightarrow> string option \<Rightarrow> world \<Rightarrow> string \<times> world" where
  "dateStr e d w =
     (case truthy d of
        Some v \<Rightarrow> (v, w)
      | None \<Rightarrow>
          (case new_Date e w of
             (t, w') \<Rightarrow> (takeWhile (\<lambda>c. c \<noteq> CHR ''T'') (toISOString t), w')))"

subsection \<open>Firestore\<close>

definition is_Firestore :: "event \<Rightarrow> bool" where
  "is_Firestore ev = (case ev of Firestore _ \<Rightarrow> True | _ \<Rightarrow> False)"

definition firestore_calls :: "world \<Rightarrow> nat" where
  "firestore_calls w = length (filter is_Firestore (trace w))"

text \<open>
  \<^verbatim>\<open>db.collection('reflections').add(data)\<close>: a new document under a generated id.
\<close>

definition firestore_add :: "env \<Rightarrow> reflection \<Rightarrow> world \<Rightarrow> (js_error + doc_id) \<times> world" where
  "firestore_add e r w =
     (let k = firestore_calls w; w' = emit (Firestore (Add r)) w in
      case firestore_fault e k (Add r) of
        Some err \<Rightarrow> (Inl err, w')
      | None \<Rightarrow>
          (if auto_id e k \<in> fst ` set (docs w) then (Inl (Error ''ALREADY_EXISTS''), w')
           else (Inr (auto_id e k), w'\<lparr>docs := docs w @ [(auto_id e k, r)]\<rparr>)))"

text \<open>
  \<^verbatim>\<open>db.collection('reflections').doc(id).get()\<close>: \<open>None\<close> is a snapshot whose
  \<^verbatim>\<open>exists\<close> is false.
\<close>

definition firestore_get ::
  "env \<Rightarrow> doc_id \<Rightarrow> world \<Rightarrow> (js_error + reflection option) \<times> world" where
  "firestore_get e i w =
     (let k = firestore_calls w; w' = emit (Firestore (Get i)) w in
      case firestore_fault e k (Get i) of
        Some err \<Rightarrow> (Inl err, w')
      | None \<Rightarrow> (Inr (map_of (docs w) i), w'))"

definition firestore_delete :: "env \<Rightarrow> doc_id \<Rightarrow> world \<Rightarrow> (js_error + unit) \<times> world" where
  "firestore_delete e i w =
     (let k = firestore_calls w; w' = emit (Firestore (Delete i)) w in
      case firestore_fault e k (Delete i) of
        Some err \<Rightarrow> (Inl err, w')
      | None \<Rightarrow> (Inr (), w'\<lparr>docs := filter (\<lambda>(j, r). j \<noteq> i) (docs w)\<rparr>))"

subsection \<open>The routes\<close>

text \<open>
  A response: its status and its JSON body, one constructor per shape the routes send.
  \<open>ErrorBody\<close> is \<^verbatim>\<open>{error, details}\<close>, \<open>FailureBody\<close> the second variant's
  \<^verbatim>\<open>{success: false, error}\<close>, \<open>SavedBody\<close> is \<^verbatim>\<open>{success: true, id, data}\<close>,
  \<open>SavedBody_textonly\<close> is \<^verbatim>\<open>{success: true, analysis: {id, ...}}\<close>.
\<close>

datatype body =
    ErrorBody string "string option"
  | FailureBody "string option"
  | SavedBody doc_id reflection
  | SavedBody_textonly doc_id reflection
  | DeletedBody string

record http_response =
  status :: nat
  body :: body

text \<open>
  \<^verbatim>\<open>analysis.data.transcript\<close> and the five reads after it. Reading a property of
  \<^verbatim>\<open>undefined\<close> or \<^verbatim>\<open>null\<close> throws; an object has the property or not; no other
  JSON value has one of these six names.
\<close>

definition property :: "json \<Rightarrow> string \<Rightarrow> json option" where
  "property v name = (case v of JObject kvs \<Rightarrow> map_of kvs name | _ \<Rightarrow> None)"

definition reflectionData ::
  "env \<Rightarrow> string \<Rightarrow> string \<Rightarrow> analysis_result \<Rightarrow> world \<Rightarrow> (js_error + reflection) \<times> world" where
  "reflectionData e uid d analysis w =
     (case data analysis of
        None \<Rightarrow> (Inl (Error ''Cannot read properties of undefined (reading 'transcript')''), w)
      | Some JNull \<Rightarrow> (Inl (Error ''Cannot read properties of null (reading 'transcript')''), w)
      | Some v \<Rightarrow>
          (case new_Date e w of
             (t, w') \<Rightarrow>
               (Inr \<lparr>userId = uid, date = d,
                     transcript = property v ''transcript'',
                     primaryEmotion = property v ''primaryEmotion'',
                     secondaryEmotion = property v ''secondaryEmotion'',
                     theme = property v ''theme'',
                     emotionalIntensity = property v ''emotionalIntensity'',
                     dailyInsight = property v ''dailyInsight'',
                     createdAt = t\<rparr>, w')))"

text \<open>
  Lines 47-59 (and 259-271): the document is built, then added to the collection.
\<close>

definition persist ::
  "env \<Rightarrow> string \<Rightarrow> string \<Rightarrow> analysis_result \<Rightarrow> world
     \<Rightarrow> (js_error + doc_id \<times> reflection) \<times> world" where
  "persist e uid d analysis w =
     (case reflectionData e uid d analysis w of
        (Inl err, w') \<Rightarrow> (Inl err, w')
      | (Inr r, w') \<Rightarrow>
          (case firestore_add e r w' of
             (Inl err, w'') \<Rightarrow> (Inl err, w'')
           | (Inr i, w'') \<Rightarrow> (Inr (i, r), w'')))"

text \<open>
  Lines 33-40: the audio is analysed when a file was uploaded, else the text when there is
  one; \<open>None\<close> is the branch that answers 400.
\<close>

definition choose_analysis ::
  "env \<Rightarrow> daily_request \<Rightarrow> world \<Rightarrow> ((js_error + analysis_result) \<times> world) option" where
  "choose_analysis e req w =
     (case req_file req of
        Some (buffer, mimetype) \<Rightarrow> Some (analyzeAudioReflection e buffer mimetype w)
      | None \<Rightarrow>
          (case truthy (req_textInput req) of
             Some textInput \<Rightarrow> Some (analyzeTextReflection e textInput w)
           | None \<Rightarrow> None))"

text \<open>
  \<^verbatim>\<open>POST /api/analyze-daily\<close>, first variant: the \<^verbatim>\<open>try\<close> block, \<open>Inl\<close> what it
  throws, and the handler with its \<^verbatim>\<open>catch\<close>.
\<close>

definition analyze_daily_try ::
  "env \<Rightarrow> daily_request \<Rightarrow> world \<Rightarrow> (js_error + http_response) \<times> world" where
  "analyze_daily_try e req w =
     (case truthy (req_userId req) of
        None \<Rightarrow> (Inr \<lparr>status = 400, body = ErrorBody ''User ID is required'' None\<rparr>, w)
      | Some uid \<Rightarrow>
          (case dateStr e (req_date req) w of
             (d, w1) \<Rightarrow>
               (case choose_analysis e req w1 of
                  None \<Rightarrow>
                    (Inr \<lparr>status = 400,
                          body = ErrorBody ''Audio file or text input required'' None\<rparr>, w1)
                | Some (Inl err, w2) \<Rightarrow> (Inl err, w2)
                | Some (Inr analysis, w2) \<Rightarrow>
                    (if \<not> success analysis then
                       (Inr \<lparr>status = 500,
                             body = ErrorBody ''Analysis failed'' (error analysis)\<rparr>, w2)
                     else
                       (case persist e uid d analysis w2 of
                          (Inl err, w3) \<Rightarrow> (Inl err, w3)
                        | (Inr (i, r), w3) \<Rightarrow>
                            (Inr \<lparr>status = 200, body = SavedBody i r\<rparr>, w3))))))"

definition analyze_daily :: "env \<Rightarrow> daily_request \<Rightarrow> world \<Rightarrow> http_response \<times> world" where
  "analyze_daily e req w =
     (case analyze_daily_try e req w of
        (Inr res, w') \<Rightarrow> (res, w')
      | (Inl err, w') \<Rightarrow>
          (\<lparr>status = 500,
            body = ErrorBody ''Failed to analyze reflection'' (Some (message err))\<rparr>,
           emit (Console (RouteErrorLine ''Analysis error:'' err)) w'))"

text \<open>
  \<^verbatim>\<open>POST /api/analyze-daily\<close>, text-only variant; it ignores \<^verbatim>\<open>req.file\<close>.
\<close>

definition analyze_daily_try_textonly ::
  "env \<Rightarrow> daily_request \<Rightarrow> world \<Rightarrow> (js_error + http_response) \<times> world" where
  "analyze_daily_try_textonly e req w =
     (let w0 = emit (Console (ReqBody req)) w in
      case (truthy (req_userId req), truthy (req_textInput req)) of
        (Some uid, Some textInput) \<Rightarrow>
          (case dateStr e (req_date req) w0 of
             (d, w1) \<Rightarrow>
               (case analyzeTextReflection_textonly e textInput w1 of
                  (analysis, w2) \<Rightarrow>
                    (if \<not> success analysis then
                       (Inr \<lparr>status = 500, body = FailureBody (error analysis)\<rparr>, w2)
                     else
                       (case persist e uid d analysis w2 of
                          (Inl err, w3) \<Rightarrow> (Inl err, w3)
                        | (Inr (i, r), w3) \<Rightarrow>
                            (Inr \<lparr>status = 200, body = SavedBody_textonly i r\<rparr>, w3)))))
      | _ \<Rightarrow>
          (Inr \<lparr>status = 400,
                body = FailureBody (Some ''userId and textInput are required'')\<rparr>, w0))"

definition analyze_daily_textonly ::
  "env \<Rightarrow> daily_request \<Rightarrow> world \<Rightarrow> http_response \<times> world" where
  "analyze_daily_textonly e req w =
     (case analyze_daily_try_textonly e req w of
        (Inr res, w') \<Rightarrow> (res, w')
      | (Inl err, w') \<Rightarrow>
          (\<lparr>status = 500, body = FailureBody (Some ''Failed to analyze reflection'')\<rparr>,
           emit (Console (RouteErrorLine ''DAILY ANALYSIS ROUTE ERROR:'' err)) w'))"

text \<open>\<^verbatim>\<open>DELETE /api/reflection/:id\<close>\<close>

definition delete_reflection_try ::
  "env \<Rightarrow> delete_request \<Rightarrow> world \<Rightarrow> (js_error + http_response) \<times> world" where
  "delete_reflection_try e req w =
     (case firestore_get e (del_id req) w of
        (Inl err, w1) \<Rightarrow> (Inl err, w1)
      | (Inr None, w1) \<Rightarrow>
          (Inr \<lparr>status = 404, body = ErrorBody ''Reflection not found'' None\<rparr>, w1)
      | (Inr (Some doc), w1) \<Rightarrow>
          (if Some (userId doc) \<noteq> del_userId req then
             (Inr \<lparr>status = 403, body = ErrorBody ''Unauthorized'' None\<rparr>, w1)
           else
             (case firestore_delete e (del_id req) w1 of
                (Inl err, w2) \<Rightarrow> (Inl err, w2)
              | (Inr u, w2) \<Rightarrow>
                  (Inr \<lparr>status = 200, body = DeletedBody ''Reflection deleted''\<rparr>, w2))))"

definition delete_reflection ::
  "env \<Rightarrow> delete_request \<Rightarrow> world \<Rightarrow> http_response \<times> world" where
  "delete_reflection e req w =
     (case delete_reflection_try e req w of
        (Inr res, w') \<Rightarrow> (res, w')
      | (Inl err, w') \<Rightarrow>
          (\<lparr>status = 500,
            body = ErrorBody ''Failed to delete reflection'' (Some (message err))\<rparr>,
           emit (Console (RouteErrorLine ''Delete error:'' err)) w'))"

subsection \<open>Example environments\<close>

text \<open>
  Concrete environments on which the model is run below. \<open>sample_parse\<close> gives what
  \<^verbatim>\<open>JSON.parse\<close> returns on the four JSON texts the examples use and rejects the
  malformed texts they use; the general theorems hold for every parser.
\<close>

definition sample_answer :: string where
  "sample_answer = ''{\"transcript\":\"hi\",\"primaryEmotion\":\"calm\",\"secondaryEmotion\":null,\"theme\":\"self\",\"emotionalIntensity\":\"low\",\"dailyInsight\":\"ok\"}''"

definition sample_analysis :: json where
  "sample_analysis =
     JObject [(''transcript'', JString ''hi''), (''primaryEmotion'', JString ''calm''),
              (''secondaryEmotion'', JNull), (''theme'', JString ''self''),
              (''emotionalIntensity'', JString ''low''), (''dailyInsight'', JString ''ok'')]"

text \<open>A JSON text whose one string value holds two fence markers.\<close>

definition quoted_answer :: string where
  "quoted_answer = ''{\"transcript\":\"a ```b``` c\"}''"

definition quoted_analysis :: json where
  "quoted_analysis = JObject [(''transcript'', JString ''a ```b``` c'')]"

definition sample_parse :: "string \<Rightarrow> js_error + json" where
  "sample_parse s =
     (if s = ''{}'' then Inr (JObject [])
      else if s = ''null'' then Inr JNull
      else if s = sample_answer then Inr sample_analysis
      else if s = quoted_answer then Inr quoted_analysis
      else Inl (Error ''Unexpected token''))"

definition sample_time :: utc_time where
  "sample_time = \<lparr>year = 2026, month = 1, day = 15, hours = 9, minutes = 30, seconds = 5,
     milliseconds = 7\<rparr>"

text \<open>An environment whose model always answers \<open>text\<close> and whose store is healthy.\<close>

definition answering :: "string \<Rightarrow> env" where
  "answering text =
     \<lparr>gemini = (\<lambda>k req. Inr (Inr text)),
      JSON_parse = sample_parse,
      clock = (\<lambda>k. sample_time),
      firestore_fault = (\<lambda>k op. None),
      auto_id = (\<lambda>k. ''doc-1'')\<rparr>"

text \<open>An environment whose model always throws an error with the message \<open>msg\<close>.\<close>

definition failing :: "string \<Rightarrow> env" where
  "failing msg = (answering [])\<lparr>gemini := (\<lambda>k req. Inl (Error msg))\<rparr>"

text \<open>The model is rate-limited on its first two calls and answers \<open>text\<close> afterwards.\<close>

definition recovering :: "string \<Rightarrow> env" where
  "recovering text =
     (answering text)\<lparr>gemini := (\<lambda>k req.
        if k < 2 then Inl (Error ''[429 Too Many Requests] quota exceeded'')
        else Inr (Inr text))\<rparr>"

text \<open>The model is rate-limited on every call; the error of call \<open>k\<close> carries \<open>k\<close>.\<close>

definition throttled :: env where
  "throttled = (answering [])\<lparr>gemini := (\<lambda>k req. Inl (Error (''429 call '' @ pad 1 k)))\<rparr>"

definition empty_world :: world where
  "empty_world = \<lparr>trace = [], docs = []\<rparr>"

definition sample_reflection :: "string \<Rightarrow> reflection" where
  "sample_reflection uid =
     \<lparr>userId = uid, date = ''2026-01-15'', transcript = Some (JString ''hi''),
      primaryEmotion = Some (JString ''calm''), secondaryEmotion = Some JNull,
      theme = Some (JString ''self''), emotionalIntensity = Some (JString ''low''),
      dailyInsight = Some (JString ''ok''), createdAt = sample_time\<rparr>"

definition sample_summary :: summary where
  "sample_summary =
     \<lparr>s_date = Some (JString ''2026-01-15''), s_primaryEmotion = Some (JString ''calm''),
      s_secondaryEmotion = Some JNull, s_theme = Some (JString ''self''),
      s_intensity = Some (JString ''low''), s_transcript = Some (JString ''hi'')\<rparr>"

definition text_request :: daily_request where
  "text_request =
     \<lparr>req_userId = Some ''u1'', req_date = None, req_textInput = Some ''hello'',
      req_file = None\<rparr>"


text \<open>A store holding one reflection, \<open>doc-1\<close>, owned by \<open>u1\<close>.\<close>

definition one_doc_world :: world where
  "one_doc_world = \<lparr>trace = [], docs = [(''doc-1'', sample_reflection ''u1'')]\<rparr>"

section \<open>Properties\<close>

subsection \<open>Traces\<close>

lemma sleeps_emit:
  "sleeps (emit ev w) = sleeps w @ (case ev of Sleep d \<Rightarrow> [d] | _ \<Rightarrow> [])"
  by (simp add: sleeps_def emit_def)

lemma sleeps_backoff: "sleeps (backoff d n m w) = sleeps w @ [d]"
  by (simp add: backoff_def sleep_def sleeps_emit)

lemma sleeps_generateContent: "sleeps (snd (generateContent e req w)) = sleeps w"
  by (simp add: generateContent_def sleeps_emit)

subsection \<open>The backoff retrier\<close>

lemma retry_loop_retry:
  "int attempt < maxRetries - 1 \<Longrightarrow> fn w = (Inl err, w') \<Longrightarrow> rate_limit_signal err \<Longrightarrow>
   retry_loop fn maxRetries initialDelay attempt lastError w =
     retry_loop fn maxRetries initialDelay (Suc attempt) (Thrown err)
       (backoff (initialDelay * 2 ^ attempt) (Suc attempt) maxRetries w')"
  by (subst retry_loop.simps) (simp add: backoff_def Let_def)

lemma retry_loop_last:
  "int attempt < maxRetries \<Longrightarrow> \<not> int attempt < maxRetries - 1 \<Longrightarrow> fn w = (Inl err, w') \<Longrightarrow>
   retry_loop fn maxRetries initialDelay attempt lastError w = (Inl (Thrown err), w')"
  by (subst retry_loop.simps, simp add: Let_def, subst retry_loop.simps, simp)

lemma retry_loop_return:
  "int attempt < maxRetries \<Longrightarrow> fn w = (Inr v, w') \<Longrightarrow>
   retry_loop fn maxRetries initialDelay attempt lastError w = (Inr v, w')"
  by (subst retry_loop.simps) simp

lemma retry_loop_fail_fast:
  "int attempt < maxRetries \<Longrightarrow> fn w = (Inl err, w') \<Longrightarrow> \<not> rate_limit_signal err \<Longrightarrow>
   retry_loop fn maxRetries initialDelay attempt lastError w = (Inl (Thrown err), w')"
  by (subst retry_loop.simps) simp

lemma retry_loop_exhausted:
  fixes fn :: "world \<Rightarrow> (js_error + 'a) \<times> world"
  shows "\<forall>w. sleeps (snd (fn w)) = sleeps w \<Longrightarrow>
         \<forall>w. \<exists>err. fst (fn w) = Inl err \<and> rate_limit_signal err \<Longrightarrow>
         int attempt < maxRetries \<Longrightarrow>
         (\<exists>err. fst (retry_loop fn maxRetries initialDelay attempt lastError w) = Inl (Thrown err)
                \<and> rate_limit_signal err) \<and>
         sleeps (snd (retry_loop fn maxRetries initialDelay attempt lastError w)) =
           sleeps w @ map (\<lambda>k. initialDelay * 2 ^ k) [attempt..<nat (maxRetries - 1)]"
proof (induction fn maxRetries initialDelay attempt lastError w rule: retry_loop.induct)
  case (1 fn maxRetries initialDelay attempt lastError w)
  note quiet = "1.prems"(1) and limited = "1.prems"(2) and lt = "1.prems"(3)
  obtain r w' where fnw: "fn w = (r, w')" by (cases "fn w")
  from limited obtain err where r: "r = Inl err" and rl: "rate_limit_signal err"
    using fnw by (metis fst_conv)
  from quiet fnw have sl: "sleeps w' = sleeps w" by (metis snd_conv)
  show ?case
  proof (cases "int attempt < maxRetries - 1")
    case True
    then have next_ok: "int (attempt + 1) < maxRetries" by simp
    have up: "[attempt..<nat (maxRetries - 1)] = attempt # [Suc attempt..<nat (maxRetries - 1)]"
      using True by (simp add: upt_conv_Cons)
    have c: "rate_limit_signal err \<and> int attempt < maxRetries - 1" using rl True by simp
    have step: "retry_loop fn maxRetries initialDelay attempt lastError w =
        retry_loop fn maxRetries initialDelay (Suc attempt) (Thrown err)
          (backoff (initialDelay * 2 ^ attempt) (Suc attempt) maxRetries w')"
      using True fnw rl unfolding r by (rule retry_loop_retry)
    show ?thesis
      using "1.IH"(1)[OF lt fnw[symmetric] r refl c refl quiet limited next_ok]
      unfolding step by (simp add: up sl backoff_def sleep_def sleeps_emit)
  next
    case False
    then have last: "nat (maxRetries - 1) = attempt" using lt by simp
    have stop: "retry_loop fn maxRetries initialDelay attempt lastError w = (Inl (Thrown err), w')"
      using lt False fnw unfolding r by (rule retry_loop_last)
    show ?thesis
      unfolding stop by (simp add: rl sl last)
  qed
qed


lemmas run_simps = retryWithBackoff_def retry_loop.simps generateContent_def generate_count_def
  is_Generate_def emit_def sleep_def backoff_def rate_limit_signal_def startsWith_def
  answering_def failing_def recovering_def empty_world_def

lemma retry_exhausted:
  fixes fn :: "world \<Rightarrow> (js_error + 'a) \<times> world"
  assumes "\<forall>w. sleeps (snd (fn w)) = sleeps w"
      and "\<forall>w. \<exists>err. fst (fn w) = Inl err \<and> rate_limit_signal err"
      and "0 < maxRetries"
  shows "(\<exists>err. fst (retryWithBackoff fn maxRetries initialDelay w) = Inl (Thrown err)
            \<and> rate_limit_signal err) \<and>
         sleeps (snd (retryWithBackoff fn maxRetries initialDelay w)) =
           sleeps w @ map (\<lambda>attempt. initialDelay * 2 ^ attempt) [0..<nat (maxRetries - 1)]"
proof -
  have pos: "int 0 < maxRetries" using assms(3) by simp
  show ?thesis
    using retry_loop_exhausted [OF assms(1) assms(2) pos, of initialDelay ThrownUndefined w]
    by (simp add: retryWithBackoff_def)
qed

lemma retry_exhausted_defaults:
  fixes fn :: "world \<Rightarrow> (js_error + 'a) \<times> world"
  assumes "\<forall>w. sleeps (snd (fn w)) = sleeps w"
      and "\<forall>w. \<exists>err. fst (fn w) = Inl err \<and> rate_limit_signal err"
  shows "sleeps (snd (retryWithBackoff fn 3 2000 w)) = sleeps w @ [2000, 4000]"
proof -
  have three: "(0::int) < 3" by simp
  have upt3: "[0..<2] = [0, Suc 0]" by (simp add: numeral_2_eq_2)
  show ?thesis
    using retry_exhausted [OF assms three, of 2000 w] by (simp add: upt3)
qed

lemma retry_recovers:
  fixes gn :: "world \<Rightarrow> (js_error + 'b) \<times> world"
  assumes "\<forall>w. sleeps (snd (gn w)) = sleeps w"
      and "gn w0 = (Inl e0, w1)" and "rate_limit_signal e0"
      and "gn (backoff initialDelay 1 3 w1) = (Inl e1, w2)" and "rate_limit_signal e1"
      and "gn (backoff (initialDelay * 2) 2 3 w2) = (Inr v, w3)"
  shows "retryWithBackoff gn 3 initialDelay w0 = (Inr v, w3) \<and>
         sleeps w3 = sleeps w0 @ [initialDelay, initialDelay * 2]"
proof -
  have r0: "retry_loop gn 3 initialDelay 0 ThrownUndefined w0 =
      retry_loop gn 3 initialDelay (Suc 0) (Thrown e0) (backoff (initialDelay * 2 ^ 0) (Suc 0) 3 w1)"
    using assms(2,3) by (intro retry_loop_retry) simp_all
  have r1: "retry_loop gn 3 initialDelay (Suc 0) (Thrown e0) (backoff initialDelay 1 3 w1) =
      retry_loop gn 3 initialDelay (Suc (Suc 0)) (Thrown e1)
        (backoff (initialDelay * 2 ^ Suc 0) (Suc (Suc 0)) 3 w2)"
    using assms(4,5) by (intro retry_loop_retry) simp_all
  have r2: "retry_loop gn 3 initialDelay (Suc (Suc 0)) (Thrown e1)
        (backoff (initialDelay * 2) 2 3 w2) = (Inr v, w3)"
    using assms(6) by (intro retry_loop_return) simp_all
  have two: "Suc (Suc 0) = 2" by simp
  have ret: "retryWithBackoff gn 3 initialDelay w0 = (Inr v, w3)"
    using r0 r1 r2 by (simp add: retryWithBackoff_def two)
  have s1: "sleeps w1 = sleeps w0" using assms(1,2) by (metis snd_conv)
  have s2: "sleeps w2 = sleeps (backoff initialDelay 1 3 w1)" using assms(1,4) by (metis snd_conv)
  have s3: "sleeps w3 = sleeps (backoff (initialDelay * 2) 2 3 w2)"
    using assms(1,6) by (metis snd_conv)
  have sl: "sleeps w3 = sleeps w0 @ [initialDelay, initialDelay * 2]"
    by (simp add: s1 s2 s3 sleeps_backoff)
  from ret sl show ?thesis by simp
qed

lemma retry_reaches_attempt:
  fixes fn :: "world \<Rightarrow> (js_error + 'a) \<times> world"
  assumes limited: "\<forall>w. \<exists>err. fst (fn w) = Inl err \<and> rate_limit_signal err"
  shows "int n < maxRetries \<Longrightarrow>
         \<exists>le. retryWithBackoff fn maxRetries initialDelay w =
           retry_loop fn maxRetries initialDelay n le
             (attempt_world fn maxRetries initialDelay n w)"
proof (induction n)
  case 0
  show ?case unfolding retryWithBackoff_def by (rule exI [of _ ThrownUndefined]) simp
next
  case (Suc n)
  let ?w = "attempt_world fn maxRetries initialDelay n w"
  from Suc.prems have lt: "int n < maxRetries - 1" by simp
  then have "int n < maxRetries" by simp
  from Suc.IH [OF this] obtain le where
    eq: "retryWithBackoff fn maxRetries initialDelay w =
      retry_loop fn maxRetries initialDelay n le ?w" by blast
  obtain r w' where fnw: "fn ?w = (r, w')" by (cases "fn ?w")
  from limited obtain err where r: "r = Inl err" and rl: "rate_limit_signal err"
    using fnw by (metis fst_conv)
  have step: "retry_loop fn maxRetries initialDelay n le ?w =
      retry_loop fn maxRetries initialDelay (Suc n) (Thrown err)
        (backoff (initialDelay * 2 ^ n) (Suc n) maxRetries w')"
    using lt fnw rl unfolding r by (rule retry_loop_retry)
  have aw: "attempt_world fn maxRetries initialDelay (Suc n) w =
      backoff (initialDelay * 2 ^ n) (Suc n) maxRetries w'"
    by (simp add: fnw)
  show ?case unfolding eq step aw by blast
qed

lemma retry_throws_last:
  fixes fn :: "world \<Rightarrow> (js_error + 'a) \<times> world"
  assumes limited: "\<forall>w. \<exists>err. fst (fn w) = Inl err \<and> rate_limit_signal err"
      and pos: "0 < maxRetries"
  shows "\<exists>err w'. fn (attempt_world fn maxRetries initialDelay (nat (maxRetries - 1)) w) =
            (Inl err, w') \<and> rate_limit_signal err \<and>
          retryWithBackoff fn maxRetries initialDelay w = (Inl (Thrown err), w')"
proof -
  let ?n = "nat (maxRetries - 1)"
  let ?w = "attempt_world fn maxRetries initialDelay ?n w"
  have lt: "int ?n < maxRetries" using pos by simp
  have nlt: "\<not> int ?n < maxRetries - 1" using pos by simp
  from retry_reaches_attempt [OF limited lt] obtain le where
    eq: "retryWithBackoff fn maxRetries initialDelay w =
      retry_loop fn maxRetries initialDelay ?n le ?w" by blast
  obtain r w' where fnw: "fn ?w = (r, w')" by (cases "fn ?w")
  from limited obtain err where r: "r = Inl err" and rl: "rate_limit_signal err"
    using fnw by (metis fst_conv)
  have "retry_loop fn maxRetries initialDelay ?n le ?w = (Inl (Thrown err), w')"
    using lt nlt fnw unfolding r by (rule retry_loop_last)
  with eq fnw r rl show ?thesis by simp
qed

lemma retry_three_failures:
  fixes gn :: "world \<Rightarrow> (js_error + 'b) \<times> world"
  assumes "gn w0 = (Inl e0, w1)" and "rate_limit_signal e0"
      and "gn (backoff initialDelay 1 3 w1) = (Inl e1, w2)" and "rate_limit_signal e1"
      and "gn (backoff (initialDelay * 2) 2 3 w2) = (Inl e2, w3)"
  shows "retryWithBackoff gn 3 initialDelay w0 = (Inl (Thrown e2), w3)"
proof -
  have r0: "retry_loop gn 3 initialDelay 0 ThrownUndefined w0 =
      retry_loop gn 3 initialDelay (Suc 0) (Thrown e0) (backoff (initialDelay * 2 ^ 0) (Suc 0) 3 w1)"
    using assms(1,2) by (intro retry_loop_retry) simp_all
  have r1: "retry_loop gn 3 initialDelay (Suc 0) (Thrown e0) (backoff initialDelay 1 3 w1) =
      retry_loop gn 3 initialDelay (Suc (Suc 0)) (Thrown e1)
        (backoff (initialDelay * 2 ^ Suc 0) (Suc (Suc 0)) 3 w2)"
    using assms(3,4) by (intro retry_loop_retry) simp_all
  have r2: "retry_loop gn 3 initialDelay (Suc (Suc 0)) (Thrown e1)
        (backoff (initialDelay * 2) 2 3 w2) = (Inl (Thrown e2), w3)"
    using assms(5) by (intro retry_loop_last) simp_all
  have two: "Suc (Suc 0) = 2" by simp
  show ?thesis
    using r0 r1 r2 by (simp add: retryWithBackoff_def two)
qed

text \<open>
  C2. When an operation fails with a rate-limit signal on every attempt, the retrier
  throws the error of the last attempt, the call made in \<open>attempt_world\<close> at
  \<open>maxRetries - 1\<close>, and returns the world that call left; when the operation does not
  sleep itself, the retrier has slept \<open>initialDelay * 2 ^ attempt\<close> after each attempt
  but the last, so with the defaults 2 s and 4 s and never 8 s. With three attempts: when
  the first two calls fail with a rate-limit signal and the third fails with \<open>ec\<close>, the
  retrier throws \<open>ec\<close>; when the third succeeds, \<open>retryWithBackoff gn 3 d\<close> has slept
  exactly \<open>d\<close> and \<open>d * 2\<close> and returns the success value.
\<close>

theorem retry_backoff_delays:
  fixes fn :: "world \<Rightarrow> (js_error + 'a) \<times> world"
    and gn :: "world \<Rightarrow> (js_error + 'b) \<times> world"
  shows "((\<forall>w. \<exists>err. fst (fn w) = Inl err \<and> rate_limit_signal err) \<and> 0 < maxRetries \<longrightarrow>
            (\<exists>err w'. fn (attempt_world fn maxRetries initialDelay (nat (maxRetries - 1)) w) =
                 (Inl err, w') \<and> rate_limit_signal err \<and>
               retryWithBackoff fn maxRetries initialDelay w = (Inl (Thrown err), w'))) \<and>
         ((\<forall>w. sleeps (snd (fn w)) = sleeps w) \<and>
          (\<forall>w. \<exists>err. fst (fn w) = Inl err \<and> rate_limit_signal err) \<and> 0 < maxRetries \<longrightarrow>
            sleeps (snd (retryWithBackoff fn maxRetries initialDelay w)) =
              sleeps w @ map (\<lambda>attempt. initialDelay * 2 ^ attempt) [0..<nat (maxRetries - 1)]) \<and>
         ((\<forall>w. sleeps (snd (fn w)) = sleeps w) \<and>
          (\<forall>w. \<exists>err. fst (fn w) = Inl err \<and> rate_limit_signal err) \<longrightarrow>
            sleeps (snd (retryWithBackoff fn 3 2000 w)) = sleeps w @ [2000, 4000]) \<and>
         (gn wa = (Inl ea, wb) \<and> rate_limit_signal ea \<and>
          gn (backoff d 1 3 wb) = (Inl eb, wc) \<and> rate_limit_signal eb \<and>
          gn (backoff (d * 2) 2 3 wc) = (Inl ec, wd) \<longrightarrow>
            retryWithBackoff gn 3 d wa = (Inl (Thrown ec), wd)) \<and>
         ((\<forall>w. sleeps (snd (gn w)) = sleeps w) \<and>
          gn wa = (Inl ea, wb) \<and> rate_limit_signal ea \<and>
          gn (backoff d 1 3 wb) = (Inl eb, wc) \<and> rate_limit_signal eb \<and>
          gn (backoff (d * 2) 2 3 wc) = (Inr v, wd) \<longrightarrow>
            retryWithBackoff gn 3 d wa = (Inr v, wd) \<and> sleeps wd = sleeps wa @ [d, d * 2])"
proof (intro conjI impI)
  assume "(\<forall>w. \<exists>err. fst (fn w) = Inl err \<and> rate_limit_signal err) \<and> 0 < maxRetries"
  then have l: "\<forall>w. \<exists>err. fst (fn w) = Inl err \<and> rate_limit_signal err"
    and p: "0 < maxRetries" by blast+
  show "\<exists>err w'. fn (attempt_world fn maxRetries initialDelay (nat (maxRetries - 1)) w) =
        (Inl err, w') \<and> rate_limit_signal err \<and>
      retryWithBackoff fn maxRetries initialDelay w = (Inl (Thrown err), w')"
    using l p by (rule retry_throws_last)
next
  assume a: "(\<forall>w. sleeps (snd (fn w)) = sleeps w) \<and>
      (\<forall>w. \<exists>err. fst (fn w) = Inl err \<and> rate_limit_signal err) \<and> 0 < maxRetries"
  then have q: "\<forall>w. sleeps (snd (fn w)) = sleeps w"
    and l: "\<forall>w. \<exists>err. fst (fn w) = Inl err \<and> rate_limit_signal err"
    and p: "0 < maxRetries" by blast+
  from retry_exhausted [OF q l p, of initialDelay w]
  show "sleeps (snd (retryWithBackoff fn maxRetries initialDelay w)) =
      sleeps w @ map (\<lambda>attempt. initialDelay * 2 ^ attempt) [0..<nat (maxRetries - 1)]"
    by blast
next
  assume "(\<forall>w. sleeps (snd (fn w)) = sleeps w) \<and>
      (\<forall>w. \<exists>err. fst (fn w) = Inl err \<and> rate_limit_signal err)"
  then have q: "\<forall>w. sleeps (snd (fn w)) = sleeps w"
    and l: "\<forall>w. \<exists>err. fst (fn w) = Inl err \<and> rate_limit_signal err" by blast+
  show "sleeps (snd (retryWithBackoff fn 3 2000 w)) = sleeps w @ [2000, 4000]"
    using q l by (rule retry_exhausted_defaults)
next
  assume "gn wa = (Inl ea, wb) \<and> rate_limit_signal ea \<and>
      gn (backoff d 1 3 wb) = (Inl eb, wc) \<and> rate_limit_signal eb \<and>
      gn (backoff (d * 2) 2 3 wc) = (Inl ec, wd)"
  then have h: "gn wa = (Inl ea, wb)" "rate_limit_signal ea"
      "gn (backoff d 1 3 wb) = (Inl eb, wc)" "rate_limit_signal eb"
      "gn (backoff (d * 2) 2 3 wc) = (Inl ec, wd)" by blast+
  show "retryWithBackoff gn 3 d wa = (Inl (Thrown ec), wd)"
    using h by (rule retry_three_failures)
next
  assume b: "(\<forall>w. sleeps (snd (gn w)) = sleeps w) \<and>
      gn wa = (Inl ea, wb) \<and> rate_limit_signal ea \<and>
      gn (backoff d 1 3 wb) = (Inl eb, wc) \<and> rate_limit_signal eb \<and>
      gn (backoff (d * 2) 2 3 wc) = (Inr v, wd)"
  then have h: "\<forall>w. sleeps (snd (gn w)) = sleeps w" "gn wa = (Inl ea, wb)" "rate_limit_signal ea"
      "gn (backoff d 1 3 wb) = (Inl eb, wc)" "rate_limit_signal eb"
      "gn (backoff (d * 2) 2 3 wc) = (Inr v, wd)" by blast+
  from retry_recovers [OF h]
  show "retryWithBackoff gn 3 d wa = (Inr v, wd)" and "sleeps wd = sleeps wa @ [d, d * 2]"
    by blast+
qed

theorem retry_backoff_delays_witness:
  "retryWithBackoff (generateContent throttled (TextPrompt ''hi'')) 3 2000 empty_world =
     (Inl (Thrown (Error ''429 call 2'')),
      \<lparr>trace = [Generate (TextPrompt ''hi''), Console (RateLimitedRetrying 2000 1 3), Sleep 2000,
                Generate (TextPrompt ''hi''), Console (RateLimitedRetrying 4000 2 3), Sleep 4000,
                Generate (TextPrompt ''hi'')],
       docs = []\<rparr>) \<and>
   sleeps (snd (retryWithBackoff (generateContent throttled (TextPrompt ''hi'')) 3 2000
     empty_world)) = [2000, 4000] \<and>
   retryWithBackoff (generateContent (recovering ''{}'') (TextPrompt ''hi'')) 3 2000 empty_world =
     (Inr (Inr ''{}''),
      \<lparr>trace = [Generate (TextPrompt ''hi''), Console (RateLimitedRetrying 2000 1 3), Sleep 2000,
                Generate (TextPrompt ''hi''), Console (RateLimitedRetrying 4000 2 3), Sleep 4000,
                Generate (TextPrompt ''hi'')],
       docs = []\<rparr>)"
proof -
  let ?fn = "generateContent throttled (TextPrompt ''hi'')"
  let ?gn = "generateContent (recovering ''{}'') (TextPrompt ''hi'')"
  let ?e = "Error ''[429 Too Many Requests] quota exceeded''"
  let ?w1 = "\<lparr>trace = [Generate (TextPrompt ''hi'')], docs = []\<rparr>"
  let ?w2 = "\<lparr>trace = [Generate (TextPrompt ''hi''), Console (RateLimitedRetrying 2000 1 3),
     Sleep 2000, Generate (TextPrompt ''hi'')], docs = []\<rparr>"
  let ?w3 = "\<lparr>trace = [Generate (TextPrompt ''hi''), Console (RateLimitedRetrying 2000 1 3),
     Sleep 2000, Generate (TextPrompt ''hi''), Console (RateLimitedRetrying 4000 2 3), Sleep 4000,
     Generate (TextPrompt ''hi'')], docs = []\<rparr>"
  have h1: "\<forall>w. sleeps (snd (?fn w)) = sleeps w" by (simp add: sleeps_generateContent)
  have h2: "\<forall>w. \<exists>err. fst (?fn w) = Inl err \<and> rate_limit_signal err"
    by (simp add: generateContent_def throttled_def rate_limit_signal_def startsWith_def)
  have h3: "(0::int) < 3" by simp
  have h4: "\<forall>w. sleeps (snd (?gn w)) = sleeps w" by (simp add: sleeps_generateContent)
  have h5: "?gn empty_world = (Inl ?e, ?w1)" by code_simp
  have h6: "rate_limit_signal ?e" by code_simp
  have h7: "?gn (backoff 2000 1 3 ?w1) = (Inl ?e, ?w2)" by code_simp
  have h9: "?gn (backoff (2000 * 2) 2 3 ?w2) = (Inr (Inr ''{}''), ?w3)" by code_simp
  have k1: "?fn empty_world = (Inl (Error ''429 call 0''), ?w1)" by code_simp
  have k2: "rate_limit_signal (Error ''429 call 0'')" by code_simp
  have k3: "?fn (backoff 2000 1 3 ?w1) = (Inl (Error ''429 call 1''), ?w2)" by code_simp
  have k4: "rate_limit_signal (Error ''429 call 1'')" by code_simp
  have k5: "?fn (backoff (2000 * 2) 2 3 ?w2) = (Inl (Error ''429 call 2''), ?w3)" by code_simp
  have last: "?fn (attempt_world ?fn 3 2000 (nat (3 - 1)) empty_world) =
      (Inl (Error ''429 call 2''), ?w3)" by code_simp
  have s0: "sleeps empty_world = []" by code_simp
  have upt2: "[0..<2] = [0, Suc 0]" by (simp add: numeral_2_eq_2)
  note A = retry_backoff_delays [where fn = ?fn and gn = ?gn and w = empty_world
      and wa = empty_world and maxRetries = 3 and initialDelay = 2000 and d = 2000
      and ea = ?e and eb = ?e and wb = ?w1 and wc = ?w2 and wd = ?w3 and v = "Inr ''{}''"]
  note B = retry_backoff_delays [where fn = ?fn and gn = ?fn and w = empty_world
      and wa = empty_world and maxRetries = 3 and initialDelay = 2000 and d = 2000
      and ea = "Error ''429 call 0''" and eb = "Error ''429 call 1''"
      and ec = "Error ''429 call 2''" and wb = ?w1 and wc = ?w2 and wd = ?w3]
  have a1: "retryWithBackoff ?fn 3 2000 empty_world = (Inl (Thrown (Error ''429 call 2'')), ?w3)"
    using A h2 h3 last by simp
  have a2: "sleeps (snd (retryWithBackoff ?fn 3 2000 empty_world)) = [2000, 4000]"
    using A h1 h2 h3 by (simp add: s0 upt2)
  have a3: "retryWithBackoff ?gn 3 2000 empty_world = (Inr (Inr ''{}''), ?w3)"
    using A h4 h5 h6 h7 h9 by simp
  have a4: "retryWithBackoff ?fn 3 2000 empty_world = (Inl (Thrown (Error ''429 call 2'')), ?w3)"
    using B k1 k2 k3 k4 k5 by simp
  from a1 a2 a3 a4 show ?thesis by simp
qed

theorem retry_delays_counterexample:
  "sleeps (snd (retryWithBackoff
      (generateContent (failing ''[429 Too Many Requests] quota exceeded'') (TextPrompt ''hi''))
      3 2000 empty_world)) = [2000, 4000] \<and>
   8000 \<notin> set (sleeps (snd (retryWithBackoff
      (generateContent (failing ''[429 Too Many Requests] quota exceeded'') (TextPrompt ''hi''))
      3 2000 empty_world)))"
  by code_simp

text \<open>
  C3. When the first call of the operation fails with an error whose message contains none
  of "429", "Too Many Requests" and "RESOURCE_EXHAUSTED", \<open>retryWithBackoff\<close> throws that
  error and leaves the world as that one call left it: it has not slept, printed, or
  called the operation again.
\<close>

theorem retry_fails_fast:
  assumes "fn w = (Inl err, w')"
      and "\<not> str_includes (message err) ''429''"
      and "\<not> str_includes (message err) ''Too Many Requests''"
      and "\<not> str_includes (message err) ''RESOURCE_EXHAUSTED''"
      and "0 < maxRetries"
  shows "retryWithBackoff fn maxRetries initialDelay w = (Inl (Thrown err), w')"
  using assms by (simp add: retryWithBackoff_def retry_loop_fail_fast rate_limit_signal_def)

theorem retry_fails_fast_witness:
  "retryWithBackoff (generateContent (failing ''API key not valid'') (TextPrompt ''hi'')) 3 2000
     empty_world =
     (Inl (Thrown (Error ''API key not valid'')),
      \<lparr>trace = [Generate (TextPrompt ''hi'')], docs = []\<rparr>)"
proof -
  have h1: "generateContent (failing ''API key not valid'') (TextPrompt ''hi'') empty_world =
      (Inl (Error ''API key not valid''), \<lparr>trace = [Generate (TextPrompt ''hi'')], docs = []\<rparr>)"
    by (simp add: run_simps)
  have h2: "\<not> str_includes (message (Error ''API key not valid'')) ''429''"
    by (simp add: startsWith_def)
  have h3: "\<not> str_includes (message (Error ''API key not valid'')) ''Too Many Requests''"
    by (simp add: startsWith_def)
  have h4: "\<not> str_includes (message (Error ''API key not valid'')) ''RESOURCE_EXHAUSTED''"
    by (simp add: startsWith_def)
  have h5: "(0::int) < 3" by simp
  show ?thesis
    using retry_fails_fast [where fn = "generateContent (failing ''API key not valid'') (TextPrompt ''hi'')"
        and w = empty_world, OF h1 h2 h3 h4 h5]
    by simp
qed

subsection \<open>Strings\<close>

lemma startsWith_iff: "startsWith s t \<longleftrightarrow> (\<exists>b. s = t @ b)"
proof
  assume "startsWith s t"
  then have "s = t @ drop (length t) s"
    by (metis append_take_drop_id startsWith_def)
  then show "\<exists>b. s = t @ b" ..
next
  assume "\<exists>b. s = t @ b"
  then show "startsWith s t" by (auto simp: startsWith_def)
qed

lemma str_includes_iff: "str_includes s t \<longleftrightarrow> (\<exists>a b. s = a @ t @ b)"
proof (induction s)
  case Nil
  then show ?case by auto
next
  case (Cons c cs)
  show ?case
  proof
    assume "str_includes (c # cs) t"
    then consider "startsWith (c # cs) t" | "str_includes cs t" by auto
    then show "\<exists>a b. c # cs = a @ t @ b"
    proof cases
      case 1
      then obtain b where "c # cs = t @ b" by (auto simp: startsWith_iff)
      then have "c # cs = [] @ t @ b" by simp
      then show ?thesis by blast
    next
      case 2
      then obtain a b where "cs = a @ t @ b" using Cons.IH by auto
      then have "c # cs = (c # a) @ t @ b" by simp
      then show ?thesis by blast
    qed
  next
    assume "\<exists>a b. c # cs = a @ t @ b"
    then obtain a b where ab: "c # cs = a @ t @ b" by auto
    show "str_includes (c # cs) t"
    proof (cases a)
      case Nil
      then have "startsWith (c # cs) t" using ab by (auto simp: startsWith_iff)
      then show ?thesis by simp
    next
      case (Cons x a')
      then have "cs = a' @ t @ b" using ab by simp
      then have "str_includes cs t" using Cons.IH by auto
      then show ?thesis by simp
    qed
  qed
qed

lemma str_includes_prefix: "str_includes a t \<Longrightarrow> str_includes (a @ b) t"
  unfolding str_includes_iff by (metis append.assoc)

lemma str_includes_suffix: "str_includes b t \<Longrightarrow> str_includes (a @ b) t"
  unfolding str_includes_iff by (metis append.assoc)

lemma str_includes_dropWhile: "str_includes (dropWhile P s) t \<Longrightarrow> str_includes s t"
  by (metis str_includes_suffix takeWhile_dropWhile_id)

lemma trim_prefix: "\<exists>ys. dropWhile js_space s = trim s @ ys"
proof -
  let ?d = "dropWhile js_space s"
  have "rev ?d = takeWhile js_space (rev ?d) @ dropWhile js_space (rev ?d)" by simp
  then have "?d = rev (dropWhile js_space (rev ?d)) @ rev (takeWhile js_space (rev ?d))"
    by (metis rev_append rev_rev_ident)
  then show ?thesis unfolding trim_def by blast
qed

lemma str_includes_trim: "str_includes (trim s) t \<Longrightarrow> str_includes s t"
  by (metis str_includes_dropWhile str_includes_prefix trim_prefix)


lemma trim_dropWhile: "trim (dropWhile js_space s) = trim s"
  by (simp add: trim_def)

lemma trim_Cons_space: "js_space c \<Longrightarrow> trim (c # s) = trim s"
  by (simp add: trim_def)

lemma trim_snoc_space:
  assumes "js_space c"
  shows "trim (s @ [c]) = trim s"
proof (cases "\<forall>x\<in>set s. js_space x")
  case True
  have all: "\<forall>x\<in>set (s @ [c]). js_space x" using True assms by simp
  have "dropWhile js_space s = []" using True by (simp only: dropWhile_eq_Nil_conv)
  moreover have "dropWhile js_space (s @ [c]) = []"
    using all by (simp only: dropWhile_eq_Nil_conv)
  ultimately show ?thesis by (simp only: trim_def)
next
  case False
  then obtain x where "x \<in> set s" and "\<not> js_space x" by blast
  then have "dropWhile js_space (s @ [c]) = dropWhile js_space s @ [c]"
    by (rule dropWhile_append1)
  then show ?thesis using assms by (simp add: trim_def)
qed

subsection \<open>The fence pattern\<close>

lemma startsWith_fence_newline:
  "startsWith (xs @ CHR 0x0A # ys) fence \<Longrightarrow> startsWith xs fence"
proof (cases xs)
  case Nil
  assume "startsWith (xs @ CHR 0x0A # ys) fence"
  with Nil show ?thesis by (simp add: startsWith_def fence_def)
next
  case (Cons a as)
  assume h: "startsWith (xs @ CHR 0x0A # ys) fence"
  show ?thesis
  proof (cases as)
    case Nil
    with Cons h show ?thesis by (simp add: startsWith_def fence_def)
  next
    case (Cons b bs)
    note asb = Cons
    show ?thesis
    proof (cases bs)
      case Nil
      with asb \<open>xs = a # as\<close> h show ?thesis by (simp add: startsWith_def fence_def)
    next
      case (Cons d ds)
      with asb \<open>xs = a # as\<close> h show ?thesis by (simp add: startsWith_def fence_def)
    qed
  qed
qed

lemma lazy_capture_fenced:
  "\<not> str_includes u fence \<Longrightarrow>
   lazy_capture (u @ CHR 0x0A # fence @ post) = Some (u @ [CHR 0x0A])"
proof (induction u)
  case Nil
  show ?case by (simp add: startsWith_def fence_def)
next
  case (Cons c cs)
  then have a: "\<not> startsWith (c # cs) fence" and b: "\<not> str_includes cs fence" by simp_all
  have "\<not> startsWith ((c # cs) @ CHR 0x0A # fence @ post) fence"
    using a startsWith_fence_newline by blast
  then show ?case using Cons.IH [OF b] by simp
qed

lemma greedy_space_fenced:
  "\<not> str_includes u fence \<Longrightarrow>
   greedy_space (u @ CHR 0x0A # fence @ post) = Some (dropWhile js_space (u @ [CHR 0x0A]))"
proof (induction u)
  case Nil
  show ?case by (simp add: startsWith_def fence_def js_space_def)
next
  case (Cons c cs)
  then have b: "\<not> str_includes cs fence" by simp
  show ?case
  proof (cases "js_space c")
    case True
    then show ?thesis using Cons.IH [OF b] by simp
  next
    case False
    then show ?thesis using lazy_capture_fenced [OF Cons.prems, of post] by simp
  qed
qed

lemma match_here_unfenced: "\<not> startsWith s fence \<Longrightarrow> match_here s = None"
  by (simp add: match_here_def)


lemma jsonMatch_unfenced: "\<not> str_includes s fence \<Longrightarrow> jsonMatch s = None"
proof (induction s)
  case Nil
  then show ?case by (simp add: match_here_def startsWith_def fence_def)
next
  case (Cons c cs)
  then show ?case by (simp add: match_here_unfenced)
qed


lemma fenced_block:
  assumes "\<not> str_includes inner fence" and "tag = ''json'' \<or> tag = []"
  shows "jsonMatch (fence @ tag @ CHR 0x0A # inner @ CHR 0x0A # fence) =
           Some (dropWhile js_space (CHR 0x0A # inner @ [CHR 0x0A]))"
    and "match_textonly (fence @ tag @ CHR 0x0A # inner @ CHR 0x0A # fence) =
           Some (CHR 0x0A # inner @ [CHR 0x0A])"
proof -
  have nl: "\<not> str_includes (CHR 0x0A # inner) fence"
    using assms(1) by (simp add: startsWith_def fence_def)
  have g: "greedy_space (CHR 0x0A # inner @ CHR 0x0A # fence) =
      Some (dropWhile js_space (CHR 0x0A # inner @ [CHR 0x0A]))"
    using greedy_space_fenced [OF nl, of "[]"] by simp
  have l: "lazy_capture (CHR 0x0A # inner @ CHR 0x0A # fence) = Some (CHR 0x0A # inner @ [CHR 0x0A])"
    using lazy_capture_fenced [OF nl, of "[]"] by simp
  from assms(2) show "jsonMatch (fence @ tag @ CHR 0x0A # inner @ CHR 0x0A # fence) =
           Some (dropWhile js_space (CHR 0x0A # inner @ [CHR 0x0A]))"
  proof
    assume "tag = ''json''"
    then show ?thesis using g by (simp add: fence_def match_here_def startsWith_def)
  next
    assume "tag = []"
    then show ?thesis using g by (simp add: fence_def match_here_def startsWith_def)
  qed
  from assms(2) show "match_textonly (fence @ tag @ CHR 0x0A # inner @ CHR 0x0A # fence) =
           Some (CHR 0x0A # inner @ [CHR 0x0A])"
  proof
    assume "tag = ''json''"
    then show ?thesis using l by (simp add: fence_def match_here_textonly_def startsWith_def)
  next
    assume "tag = []"
    then show ?thesis using l by (simp add: fence_def match_here_textonly_def startsWith_def)
  qed
qed

lemma lazy_capture_split: "lazy_capture s = Some m \<Longrightarrow> \<exists>post. s = m @ fence @ post"
proof (induction s arbitrary: m)
  case Nil
  then show ?case by (simp add: startsWith_def fence_def)
next
  case (Cons c cs)
  show ?case
  proof (cases "startsWith (c # cs) fence")
    case True
    then have "m = []" using Cons.prems by simp
    then show ?thesis using True by (simp add: startsWith_iff)
  next
    case False
    then obtain m' where m': "lazy_capture cs = Some m'" and m: "m = c # m'"
      using Cons.prems by auto
    from Cons.IH [OF m'] obtain post where "cs = m' @ fence @ post" by blast
    then have "c # cs = m @ fence @ post" using m by simp
    then show ?thesis by blast
  qed
qed

lemma lazy_capture_no_fence: "lazy_capture s = Some m \<Longrightarrow> \<not> str_includes m fence"
proof (induction s arbitrary: m)
  case Nil
  then show ?case by (simp add: startsWith_def fence_def)
next
  case (Cons c cs)
  show ?case
  proof (cases "startsWith (c # cs) fence")
    case True
    then have "m = []" using Cons.prems by simp
    then show ?thesis by (simp add: fence_def)
  next
    case False
    then obtain m' where m': "lazy_capture cs = Some m'" and m: "m = c # m'"
      using Cons.prems by auto
    from lazy_capture_split [OF m'] obtain post where cs: "cs = m' @ fence @ post" by blast
    have "\<not> startsWith (c # m') fence"
    proof
      assume "startsWith (c # m') fence"
      then obtain b where "c # m' = fence @ b" by (auto simp: startsWith_iff)
      then have "c # cs = fence @ (b @ fence @ post)" using cs by simp
      then have "startsWith (c # cs) fence" unfolding startsWith_iff by blast
      with False show False by simp
    qed
    then show ?thesis using Cons.IH [OF m'] m by simp
  qed
qed

lemma lazy_capture_finds: "str_includes s fence \<Longrightarrow> \<exists>m. lazy_capture s = Some m"
proof (induction s)
  case Nil
  then show ?case by (simp add: fence_def)
next
  case (Cons c cs)
  show ?case
  proof (cases "startsWith (c # cs) fence")
    case True
    then show ?thesis by simp
  next
    case False
    then have "str_includes cs fence" using Cons.prems by simp
    from Cons.IH [OF this] show ?thesis using False by auto
  qed
qed

lemma greedy_space_lazy: "greedy_space s = Some m \<Longrightarrow> \<exists>t. lazy_capture t = Some m"
proof (induction s)
  case Nil
  then show ?case by (simp add: startsWith_def fence_def)
next
  case (Cons c cs)
  show ?case
  proof (cases "js_space c")
    case True
    show ?thesis
    proof (cases "greedy_space cs")
      case None
      then have "lazy_capture (c # cs) = Some m" using Cons.prems True by simp
      then show ?thesis by blast
    next
      case (Some g)
      then have "greedy_space cs = Some m" using Cons.prems True by simp
      then show ?thesis by (rule Cons.IH)
    qed
  next
    case False
    then have "lazy_capture (c # cs) = Some m" using Cons.prems by simp
    then show ?thesis by blast
  qed
qed

lemma greedy_space_finds: "str_includes s fence \<Longrightarrow> \<exists>m. greedy_space s = Some m"
proof (induction s)
  case Nil
  then show ?case by (simp add: fence_def)
next
  case (Cons c cs)
  from lazy_capture_finds [OF Cons.prems] obtain l where l: "lazy_capture (c # cs) = Some l"
    by blast
  show ?case
  proof (cases "js_space c")
    case True
    show ?thesis
    proof (cases "greedy_space cs")
      case None
      then have "greedy_space (c # cs) = Some l" using True l by simp
      then show ?thesis by blast
    next
      case (Some g)
      then have "greedy_space (c # cs) = Some g" using True by simp
      then show ?thesis by blast
    qed
  next
    case False
    then have "greedy_space (c # cs) = Some l" using l by simp
    then show ?thesis by blast
  qed
qed

lemma match_here_lazy: "match_here s = Some m \<Longrightarrow> \<exists>t. lazy_capture t = Some m"
  by (auto simp: match_here_def Let_def dest: greedy_space_lazy
      split: if_splits option.splits)

lemma match_here_textonly_lazy:
  "match_here_textonly s = Some m \<Longrightarrow> \<exists>t. lazy_capture t = Some m"
  by (auto simp: match_here_textonly_def Let_def split: if_splits option.splits)

lemma jsonMatch_lazy: "jsonMatch s = Some m \<Longrightarrow> \<exists>t. lazy_capture t = Some m"
proof (induction s)
  case Nil
  then show ?case by (simp add: match_here_lazy)
next
  case (Cons c cs)
  show ?case
  proof (cases "match_here (c # cs)")
    case None
    then have "jsonMatch cs = Some m" using Cons.prems by simp
    then show ?thesis by (rule Cons.IH)
  next
    case (Some g)
    then have "match_here (c # cs) = Some m" using Cons.prems by simp
    then show ?thesis by (rule match_here_lazy)
  qed
qed

lemma match_textonly_lazy: "match_textonly s = Some m \<Longrightarrow> \<exists>t. lazy_capture t = Some m"
proof (induction s)
  case Nil
  then show ?case by (simp add: match_here_textonly_lazy)
next
  case (Cons c cs)
  show ?case
  proof (cases "match_here_textonly (c # cs)")
    case None
    then have "match_textonly cs = Some m" using Cons.prems by simp
    then show ?thesis by (rule Cons.IH)
  next
    case (Some g)
    then have "match_here_textonly (c # cs) = Some m" using Cons.prems by simp
    then show ?thesis by (rule match_here_textonly_lazy)
  qed
qed

lemma jsonMatch_no_fence: "jsonMatch s = Some m \<Longrightarrow> \<not> str_includes m fence"
  using jsonMatch_lazy lazy_capture_no_fence by blast

lemma match_textonly_no_fence: "match_textonly s = Some m \<Longrightarrow> \<not> str_includes m fence"
  using match_textonly_lazy lazy_capture_no_fence by blast

lemma fenced_block_matches:
  assumes "tag = ''json'' \<or> tag = []"
  shows "\<exists>m. jsonMatch (fence @ tag @ CHR 0x0A # inner @ CHR 0x0A # fence) = Some m"
    and "\<exists>m. match_textonly (fence @ tag @ CHR 0x0A # inner @ CHR 0x0A # fence) = Some m"
proof -
  have "CHR 0x0A # inner @ CHR 0x0A # fence = (CHR 0x0A # inner @ [CHR 0x0A]) @ fence @ []"
    by simp
  then have inc: "str_includes (CHR 0x0A # inner @ CHR 0x0A # fence) fence"
    unfolding str_includes_iff by blast
  from greedy_space_finds [OF inc] obtain g where
    g: "greedy_space (CHR 0x0A # inner @ CHR 0x0A # fence) = Some g" by blast
  from lazy_capture_finds [OF inc] obtain l where
    l: "lazy_capture (CHR 0x0A # inner @ CHR 0x0A # fence) = Some l" by blast
  from assms show "\<exists>m. jsonMatch (fence @ tag @ CHR 0x0A # inner @ CHR 0x0A # fence) = Some m"
  proof
    assume "tag = ''json''"
    then show ?thesis using g by (auto simp: fence_def match_here_def startsWith_def)
  next
    assume "tag = []"
    then show ?thesis using g by (auto simp: fence_def match_here_def startsWith_def)
  qed
  from assms show "\<exists>m. match_textonly (fence @ tag @ CHR 0x0A # inner @ CHR 0x0A # fence) = Some m"
  proof
    assume "tag = ''json''"
    then show ?thesis using l by (auto simp: fence_def match_here_textonly_def startsWith_def)
  next
    assume "tag = []"
    then show ?thesis using l by (auto simp: fence_def match_here_textonly_def startsWith_def)
  qed
qed

lemma fenced_block_no_fence:
  assumes "tag = ''json'' \<or> tag = []"
  shows "\<not> str_includes (jsonStr (fence @ tag @ CHR 0x0A # inner @ CHR 0x0A # fence)) fence"
    and "\<not> str_includes
           (trim (jsonStr_textonly (fence @ tag @ CHR 0x0A # inner @ CHR 0x0A # fence))) fence"
proof -
  let ?t = "fence @ tag @ CHR 0x0A # inner @ CHR 0x0A # fence"
  from fenced_block_matches(1) [OF assms, of inner] obtain m where m: "jsonMatch ?t = Some m"
    by blast
  have "\<not> str_includes m fence" using m by (rule jsonMatch_no_fence)
  then have "\<not> str_includes (trim m) fence" using str_includes_trim by blast
  then show "\<not> str_includes (jsonStr ?t) fence" by (simp add: jsonStr_def m)
  from fenced_block_matches(2) [OF assms, of inner] obtain n where n: "match_textonly ?t = Some n"
    by blast
  have "\<not> str_includes n fence" using n by (rule match_textonly_no_fence)
  then have "\<not> str_includes (trim n) fence" using str_includes_trim by blast
  then show "\<not> str_includes (trim (jsonStr_textonly ?t)) fence"
    by (simp add: jsonStr_textonly_def n)
qed

lemma startsWith_fence_ticks:
  "startsWith (xs @ fence @ post) fence \<Longrightarrow> xs \<noteq> [] \<Longrightarrow> startsWith (xs @ ''``'') fence"
proof (cases xs)
  case Nil
  assume "xs \<noteq> []"
  with Nil show ?thesis by simp
next
  case (Cons a as)
  assume h: "startsWith (xs @ fence @ post) fence"
  show ?thesis
  proof (cases as)
    case Nil
    with Cons h show ?thesis by (simp add: startsWith_def fence_def)
  next
    case (Cons b bs)
    note asb = Cons
    show ?thesis
    proof (cases bs)
      case Nil
      with asb \<open>xs = a # as\<close> h show ?thesis by (simp add: startsWith_def fence_def)
    next
      case (Cons d ds)
      with asb \<open>xs = a # as\<close> h show ?thesis by (simp add: startsWith_def fence_def)
    qed
  qed
qed

lemma lazy_capture_first:
  "\<not> str_includes (u @ ''``'') fence \<Longrightarrow> lazy_capture (u @ fence @ post) = Some u"
proof (induction u)
  case Nil
  show ?case by (simp add: startsWith_def fence_def)
next
  case (Cons c cs)
  then have a: "\<not> startsWith ((c # cs) @ ''``'') fence"
    and b: "\<not> str_includes (cs @ ''``'') fence" by simp_all
  have "\<not> startsWith ((c # cs) @ fence @ post) fence"
    using a startsWith_fence_ticks [of "c # cs" post] by blast
  then show ?case using Cons.IH [OF b] by simp
qed

lemma greedy_space_first:
  "\<not> str_includes (u @ ''``'') fence \<Longrightarrow>
   greedy_space (u @ fence @ post) = Some (dropWhile js_space u)"
proof (induction u)
  case Nil
  show ?case by (simp add: startsWith_def fence_def js_space_def)
next
  case (Cons c cs)
  then have b: "\<not> str_includes (cs @ ''``'') fence" by simp
  show ?case
  proof (cases "js_space c")
    case True
    then show ?thesis using Cons.IH [OF b] by simp
  next
    case False
    then show ?thesis using lazy_capture_first [OF Cons.prems, of post] by simp
  qed
qed

lemma fenced_block_cut:
  assumes "\<not> str_includes (pre @ ''``'') fence" and "tag = ''json'' \<or> tag = []"
  shows "jsonStr (fence @ tag @ [CHR 0x0A] @ pre @ fence @ rest) = trim pre"
    and "trim (jsonStr_textonly (fence @ tag @ [CHR 0x0A] @ pre @ fence @ rest)) = trim pre"
proof -
  have nl: "js_space (CHR 0x0A)" by (simp add: js_space_def)
  have n: "\<not> str_includes ((CHR 0x0A # pre) @ ''``'') fence"
    using assms(1) by (simp add: startsWith_def fence_def)
  have g: "greedy_space (CHR 0x0A # pre @ fence @ rest) = Some (dropWhile js_space (CHR 0x0A # pre))"
    using greedy_space_first [OF n, of rest] by simp
  have l: "lazy_capture (CHR 0x0A # pre @ fence @ rest) = Some (CHR 0x0A # pre)"
    using lazy_capture_first [OF n, of rest] by simp
  have m: "jsonMatch (fence @ tag @ [CHR 0x0A] @ pre @ fence @ rest) =
      Some (dropWhile js_space (CHR 0x0A # pre))"
    using assms(2)
  proof
    assume "tag = ''json''"
    then show ?thesis using g by (simp add: fence_def match_here_def startsWith_def)
  next
    assume "tag = []"
    then show ?thesis using g by (simp add: fence_def match_here_def startsWith_def)
  qed
  have k: "match_textonly (fence @ tag @ [CHR 0x0A] @ pre @ fence @ rest) = Some (CHR 0x0A # pre)"
    using assms(2)
  proof
    assume "tag = ''json''"
    then show ?thesis using l by (simp add: fence_def match_here_textonly_def startsWith_def)
  next
    assume "tag = []"
    then show ?thesis using l by (simp add: fence_def match_here_textonly_def startsWith_def)
  qed
  have "jsonStr (fence @ tag @ [CHR 0x0A] @ pre @ fence @ rest) =
      trim (dropWhile js_space (CHR 0x0A # pre))"
    unfolding jsonStr_def m by simp
  also have "\<dots> = trim (CHR 0x0A # pre)" by (rule trim_dropWhile)
  also have "\<dots> = trim pre" using nl by (rule trim_Cons_space)
  finally show "jsonStr (fence @ tag @ [CHR 0x0A] @ pre @ fence @ rest) = trim pre" .
  have "trim (jsonStr_textonly (fence @ tag @ [CHR 0x0A] @ pre @ fence @ rest)) =
      trim (CHR 0x0A # pre)"
    unfolding jsonStr_textonly_def k by simp
  also have "\<dots> = trim pre" using nl by (rule trim_Cons_space)
  finally show "trim (jsonStr_textonly (fence @ tag @ [CHR 0x0A] @ pre @ fence @ rest)) = trim pre" .
qed

lemma fenced_block_body:
  assumes "\<not> str_includes inner fence" and "tag = ''json'' \<or> tag = []"
  shows "jsonStr (fence @ tag @ [CHR 0x0A] @ inner @ [CHR 0x0A] @ fence) = trim inner"
    and "trim (jsonStr_textonly (fence @ tag @ [CHR 0x0A] @ inner @ [CHR 0x0A] @ fence)) =
           trim inner"
proof -
  have nl: "js_space (CHR 0x0A)" by (simp add: js_space_def)
  have t: "trim (CHR 0x0A # inner @ [CHR 0x0A]) = trim inner"
    using trim_snoc_space [OF nl, of "CHR 0x0A # inner"] trim_Cons_space [OF nl, of inner]
    by simp
  have "jsonStr (fence @ tag @ [CHR 0x0A] @ inner @ [CHR 0x0A] @ fence) =
      trim (dropWhile js_space (CHR 0x0A # inner @ [CHR 0x0A]))"
    using fenced_block(1) [OF assms] by (simp add: jsonStr_def del: dropWhile.simps)
  also have "\<dots> = trim (CHR 0x0A # inner @ [CHR 0x0A])" by (rule trim_dropWhile)
  finally show "jsonStr (fence @ tag @ [CHR 0x0A] @ inner @ [CHR 0x0A] @ fence) = trim inner"
    using t by simp
  show "trim (jsonStr_textonly (fence @ tag @ [CHR 0x0A] @ inner @ [CHR 0x0A] @ fence)) =
      trim inner"
    using fenced_block(2) [OF assms] t by (simp add: jsonStr_textonly_def)
qed

subsection \<open>Extraction\<close>

text \<open>
  C6. A response that is one fenced block, \<open>```json\<close> or \<open>```\<close>, a line feed, a
  body, a line feed, \<open>```\<close>: when the body holds no fence marker, both variants hand
  \<open>trim inner\<close> to \<^verbatim>\<open>JSON.parse\<close>; whatever the body holds, the string they hand to
  \<^verbatim>\<open>JSON.parse\<close> holds no fence marker. When the text goes on after the opening line
  with \<open>pre\<close> and then its first fence marker (no marker starts inside \<open>pre\<close>), both
  variants hand \<open>trim pre\<close> to \<^verbatim>\<open>JSON.parse\<close>, whatever follows: a body with a
  marker inside, as in a JSON string value, is cut at that marker.
\<close>

theorem extract_strips_fence:
  shows "(\<not> str_includes inner fence \<and> (tag = ''json'' \<or> tag = []) \<longrightarrow>
            extract_json e (fence @ tag @ [CHR 0x0A] @ inner @ [CHR 0x0A] @ fence) =
              JSON_parse e (trim inner) \<and>
            jsonStr (fence @ tag @ [CHR 0x0A] @ inner @ [CHR 0x0A] @ fence) = trim inner \<and>
            trim (jsonStr_textonly (fence @ tag @ [CHR 0x0A] @ inner @ [CHR 0x0A] @ fence)) =
              trim inner) \<and>
         (tag = ''json'' \<or> tag = [] \<longrightarrow>
            \<not> str_includes (jsonStr (fence @ tag @ [CHR 0x0A] @ payload @ [CHR 0x0A] @ fence))
               fence \<and>
            \<not> str_includes
               (trim (jsonStr_textonly (fence @ tag @ [CHR 0x0A] @ payload @ [CHR 0x0A] @ fence)))
               fence) \<and>
         (\<not> str_includes (pre @ ''``'') fence \<and> (tag = ''json'' \<or> tag = []) \<longrightarrow>
            jsonStr (fence @ tag @ [CHR 0x0A] @ pre @ fence @ rest) = trim pre \<and>
            trim (jsonStr_textonly (fence @ tag @ [CHR 0x0A] @ pre @ fence @ rest)) = trim pre)"
proof (intro conjI impI)
  assume "\<not> str_includes inner fence \<and> (tag = ''json'' \<or> tag = [])"
  then have h: "\<not> str_includes inner fence" "tag = ''json'' \<or> tag = []" by blast+
  show a: "jsonStr (fence @ tag @ [CHR 0x0A] @ inner @ [CHR 0x0A] @ fence) = trim inner"
    using h by (rule fenced_block_body(1))
  show "extract_json e (fence @ tag @ [CHR 0x0A] @ inner @ [CHR 0x0A] @ fence) =
      JSON_parse e (trim inner)"
    unfolding extract_json_def a by (rule refl)
  show "trim (jsonStr_textonly (fence @ tag @ [CHR 0x0A] @ inner @ [CHR 0x0A] @ fence)) =
      trim inner"
    using h by (rule fenced_block_body(2))
next
  assume t: "tag = ''json'' \<or> tag = []"
  show "\<not> str_includes (jsonStr (fence @ tag @ [CHR 0x0A] @ payload @ [CHR 0x0A] @ fence)) fence"
    using fenced_block_no_fence(1) [OF t, of payload] by simp
next
  assume t: "tag = ''json'' \<or> tag = []"
  show "\<not> str_includes
      (trim (jsonStr_textonly (fence @ tag @ [CHR 0x0A] @ payload @ [CHR 0x0A] @ fence))) fence"
    using fenced_block_no_fence(2) [OF t, of payload] by simp
next
  assume "\<not> str_includes (pre @ ''``'') fence \<and> (tag = ''json'' \<or> tag = [])"
  then have h: "\<not> str_includes (pre @ ''``'') fence" "tag = ''json'' \<or> tag = []" by blast+
  show "jsonStr (fence @ tag @ [CHR 0x0A] @ pre @ fence @ rest) = trim pre"
    using h by (rule fenced_block_cut(1))
  show "trim (jsonStr_textonly (fence @ tag @ [CHR 0x0A] @ pre @ fence @ rest)) = trim pre"
    using h by (rule fenced_block_cut(2))
qed

theorem extract_strips_fence_witness:
  "extract_json (answering []) ''```json\<newline> {} \<newline>```'' = Inr (JObject []) \<and>
   extract_json (answering []) ''```\<newline>null\<newline>```'' = Inr JNull \<and>
   \<not> str_includes (jsonStr (''```json\<newline>'' @ quoted_answer @ ''\<newline>```'')) ''```'' \<and>
   \<not> str_includes (jsonStr (''```\<newline>'' @ quoted_answer @ ''\<newline>```'')) ''```'' \<and>
   jsonStr (''```json\<newline>'' @ quoted_answer @ ''\<newline>```'') = ''{\"transcript\":\"a''"
proof -
  have h1: "\<not> str_includes '' {} '' fence" by (simp add: startsWith_def fence_def)
  have h2: "\<not> str_includes ''null'' fence" by (simp add: startsWith_def fence_def)
  have j: "''json'' = ''json'' \<or> ''json'' = []" by simp
  have p: "[] = ''json'' \<or> [] = ([] :: string)" by simp
  have t1: "trim '' {} '' = ''{}''" by (simp add: trim_def js_space_def)
  have t2: "trim ''null'' = ''null''" by (simp add: trim_def js_space_def)
  have h3: "\<not> str_includes (''{\"transcript\":\"a '' @ ''``'') fence" by code_simp
  have t3: "trim ''{\"transcript\":\"a '' = ''{\"transcript\":\"a''" by code_simp
  note A = extract_strips_fence [where inner = "'' {} ''" and tag = "''json''"
      and e = "answering []" and payload = quoted_answer
      and pre = "''{\"transcript\":\"a ''" and rest = "''b``` c\"}\<newline>```''"]
  note B = extract_strips_fence [where inner = "''null''" and tag = "[]"
      and e = "answering []" and payload = quoted_answer]
  have a: "extract_json (answering []) ''```json\<newline> {} \<newline>```'' = Inr (JObject [])"
    using A h1 j by (simp add: t1 fence_def answering_def sample_parse_def)
  have b: "extract_json (answering []) ''```\<newline>null\<newline>```'' = Inr JNull"
    using B h2 p by (simp add: t2 fence_def answering_def sample_parse_def)
  have c: "\<not> str_includes (jsonStr (''```json\<newline>'' @ quoted_answer @ ''\<newline>```'')) ''```''"
    using A j by (simp add: fence_def)
  have d: "\<not> str_includes (jsonStr (''```\<newline>'' @ quoted_answer @ ''\<newline>```'')) ''```''"
    using B p by (simp add: fence_def)
  have f: "jsonStr (''```json\<newline>'' @ quoted_answer @ ''\<newline>```'') = ''{\"transcript\":\"a''"
    using A h3 j by (simp add: t3 fence_def quoted_answer_def)
  from a b c d f show ?thesis by simp
qed

theorem fence_inside_counterexample:
  "trim quoted_answer = quoted_answer \<and>
   JSON_parse (answering []) (trim quoted_answer) = Inr quoted_analysis \<and>
   jsonStr (''```json\<newline>'' @ quoted_answer @ ''\<newline>```'') = ''{\"transcript\":\"a'' \<and>
   trim (jsonStr_textonly (''```json\<newline>'' @ quoted_answer @ ''\<newline>```'')) =
     ''{\"transcript\":\"a'' \<and>
   extract_json (answering []) (''```json\<newline>'' @ quoted_answer @ ''\<newline>```'') =
     Inl (Error ''Unexpected token'')"
  by code_simp




subsection \<open>The gateway\<close>

lemma retry_first_answer:
  "gemini e (generate_count w) req = Inr r \<Longrightarrow>
   retryWithBackoff (generateContent e req) 3 2000 w = (Inr r, emit (Generate req) w)"
  by (simp add: retryWithBackoff_def retry_loop_return generateContent_def)

lemma trace_emit: "trace (emit ev w) = trace w @ [ev]"
  by (simp add: emit_def)

lemma retry_loop_extends:
  "\<forall>w. \<exists>rest. trace (snd (fn w)) = trace w @ rest \<Longrightarrow>
   \<exists>rest. trace (snd (retry_loop fn maxRetries initialDelay attempt lastError w)) = trace w @ rest"
proof (induction fn maxRetries initialDelay attempt lastError w rule: retry_loop.induct)
  case (1 fn maxRetries initialDelay attempt lastError w)
  note ext = "1.prems"
  obtain r w' where fnw: "fn w = (r, w')" by (cases "fn w")
  from ext fnw obtain r1 where w': "trace w' = trace w @ r1" by (metis snd_conv)
  show ?case
  proof (cases "int attempt < maxRetries")
    case False
    then show ?thesis by (subst retry_loop.simps) simp
  next
    case lt: True
    show ?thesis
    proof (cases r)
      case (Inr v)
      then show ?thesis using lt fnw w' by (simp add: retry_loop_return)
    next
      case (Inl err)
      show ?thesis
      proof (cases "rate_limit_signal err")
        case False
        then show ?thesis using lt fnw w' Inl by (simp add: retry_loop_fail_fast)
      next
        case rl: True
        show ?thesis
        proof (cases "int attempt < maxRetries - 1")
          case True
          have c: "rate_limit_signal err \<and> int attempt < maxRetries - 1" using rl True by simp
          have step: "retry_loop fn maxRetries initialDelay attempt lastError w =
              retry_loop fn maxRetries initialDelay (Suc attempt) (Thrown err)
                (backoff (initialDelay * 2 ^ attempt) (Suc attempt) maxRetries w')"
            using True fnw rl unfolding Inl by (rule retry_loop_retry)
          from "1.IH"(1)[OF lt fnw[symmetric] Inl refl c refl ext]
          obtain r2 where "trace (snd (retry_loop fn maxRetries initialDelay (attempt + 1) (Thrown err)
                (sleep (initialDelay * 2 ^ attempt)
                  (emit (Console (RateLimitedRetrying (initialDelay * 2 ^ attempt) (attempt + 1) maxRetries)) w')))) =
              trace (sleep (initialDelay * 2 ^ attempt)
                  (emit (Console (RateLimitedRetrying (initialDelay * 2 ^ attempt) (attempt + 1) maxRetries)) w')) @ r2"
            by blast
          then show ?thesis unfolding step
            by (simp add: backoff_def sleep_def trace_emit w')
        next
          case False
          have stop: "retry_loop fn maxRetries initialDelay attempt lastError w = (Inl (Thrown err), w')"
            using lt False fnw unfolding Inl by (rule retry_loop_last)
          show ?thesis unfolding stop using w' by simp
        qed
      qed
    qed
  qed
qed

lemma retry_generate_first:
  "\<exists>rest. trace (snd (retryWithBackoff (generateContent e req) 3 2000 w)) =
     trace w @ Generate req # rest"
proof -
  let ?fn = "generateContent e req"
  have ext: "\<forall>w. \<exists>rest. trace (snd (?fn w)) = trace w @ rest"
    by (simp add: generateContent_def trace_emit)
  have fnw: "?fn w = (gemini e (generate_count w) req, emit (Generate req) w)"
    by (simp add: generateContent_def)
  have lt: "int 0 < 3" by simp
  show ?thesis
  proof (cases "gemini e (generate_count w) req")
    case (Inr r)
    then show ?thesis by (simp add: retry_first_answer trace_emit)
  next
    case (Inl err)
    show ?thesis
    proof (cases "rate_limit_signal err")
      case False
      then show ?thesis
        using fnw Inl by (simp add: retryWithBackoff_def retry_loop_fail_fast trace_emit)
    next
      case True
      have step: "retry_loop ?fn 3 2000 0 ThrownUndefined w =
          retry_loop ?fn 3 2000 (Suc 0) (Thrown err)
            (backoff (2000 * 2 ^ 0) (Suc 0) 3 (emit (Generate req) w))"
        using fnw True unfolding Inl by (intro retry_loop_retry) simp_all
      obtain rest where "trace (snd (retry_loop ?fn 3 2000 (Suc 0) (Thrown err)
            (backoff (2000 * 2 ^ 0) (Suc 0) 3 (emit (Generate req) w)))) =
          trace (backoff (2000 * 2 ^ 0) (Suc 0) 3 (emit (Generate req) w)) @ rest"
        using retry_loop_extends [OF ext] by blast
      then show ?thesis
        unfolding retryWithBackoff_def step
        by (simp add: backoff_def sleep_def trace_emit)
    qed
  qed
qed

lemma run_analysis_generate_first:
  "\<exists>rest. trace (snd (run_analysis label e req w)) = trace w @ Generate req # rest"
proof -
  obtain r w' where rw: "retryWithBackoff (generateContent e req) 3 2000 w = (r, w')"
    by (cases "retryWithBackoff (generateContent e req) 3 2000 w")
  obtain rest where w': "trace w' = trace w @ Generate req # rest"
    using retry_generate_first [of e req w] rw by auto
  show ?thesis
    using w'
    by (auto simp: run_analysis_def attempt_analysis_def rw on_error_def Let_def trace_emit
        split: sum.splits thrown.splits)
qed

lemma callGemini_generate_first:
  "\<exists>rest. trace (snd (callGemini e req w)) = trace w @ Generate req # rest"
  by (auto simp: callGemini_def generateContent_def Let_def trace_emit split: sum.splits)


lemma jsonStr_unfenced: "\<not> str_includes text fence \<Longrightarrow> jsonStr text = trim text"
  by (simp add: jsonStr_def jsonMatch_unfenced)

lemma extract_unfenced:
  "\<not> str_includes text fence \<Longrightarrow> extract_json e text = JSON_parse e (trim text)"
  by (simp add: extract_json_def jsonStr_unfenced)

lemma attempt_analysis_answer:
  "gemini e (generate_count w) req = Inr (Inr text) \<Longrightarrow>
   attempt_analysis e req w =
     (case extract_json e text of Inl err \<Rightarrow> Inl (Thrown err) | Inr a \<Rightarrow> Inr a,
      emit (Generate req) w)"
  by (simp add: attempt_analysis_def retry_first_answer split: sum.splits)

lemma run_analysis_answer_ok:
  "gemini e (generate_count w) req = Inr (Inr text) \<Longrightarrow> extract_json e text = Inr a \<Longrightarrow>
   run_analysis label e req w = (Inr (succeeded a), emit (Generate req) w)"
  by (simp add: run_analysis_def attempt_analysis_answer)


lemma sample_parse_empty_object:
  "extract_json (answering text) ''{}'' = Inr (JObject [])"
proof -
  have nf: "\<not> str_includes ''{}'' fence" by (simp add: startsWith_def fence_def)
  have t: "trim ''{}'' = ''{}''" by (simp add: trim_def js_space_def)
  show ?thesis
    unfolding extract_unfenced [OF nf] t
    by (simp add: answering_def sample_parse_def sample_answer_def quoted_answer_def)
qed

lemma weekly_textonly_few:
  "length few < 3 \<Longrightarrow>
   analyzeWeeklyPatterns_textonly e few w =
     (failed ''Not enough reflections for weekly analysis'', w)"
  by (simp add: analyzeWeeklyPatterns_textonly_def)

lemma weekly_textonly_enough:
  assumes "3 \<le> length enough"
  shows "\<exists>rest. trace (snd (analyzeWeeklyPatterns_textonly e enough w)) =
      trace w @ Generate (WeeklyPrompt_textonly (map summarize_textonly enough)) # rest"
proof -
  obtain rest where r: "trace (snd (callGemini e
        (WeeklyPrompt_textonly (map summarize_textonly enough)) w)) =
      trace w @ Generate (WeeklyPrompt_textonly (map summarize_textonly enough)) # rest"
    using callGemini_generate_first by blast
  show ?thesis
    using assms r
    by (cases "callGemini e (WeeklyPrompt_textonly (map summarize_textonly enough)) w")
      (auto simp: analyzeWeeklyPatterns_textonly_def trace_emit split: sum.splits)
qed

lemma weekly_first_some:
  "some \<noteq> [] \<Longrightarrow> summarize_all some = Inr reflectionsSummary \<Longrightarrow>
   \<exists>rest. trace (snd (analyzeWeeklyPatterns e some w)) =
      trace w @ Generate (WeeklyPrompt (length some) reflectionsSummary) # rest"
  using run_analysis_generate_first by (simp add: analyzeWeeklyPatterns_def)

text \<open>
  C1. The text-only \<^verbatim>\<open>analyzeWeeklyPatterns\<close> returns the failure "Not enough
  reflections for weekly analysis" without calling the model for every list of fewer than
  three reflections, and with three or more it calls the model with the weekly prompt. The
  first variant's \<^verbatim>\<open>analyzeWeeklyPatterns\<close> fails without calling the model only on the
  empty list; on any other list whose summaries can be built it calls the model with the
  weekly prompt, also when the list has one or two reflections.
\<close>

theorem weekly_gate:
  "(length few < 3 \<longrightarrow>
      analyzeWeeklyPatterns_textonly e few w =
        (failed ''Not enough reflections for weekly analysis'', w)) \<and>
   (3 \<le> length enough \<longrightarrow>
      (\<exists>rest. trace (snd (analyzeWeeklyPatterns_textonly e enough w)) =
         trace w @ Generate (WeeklyPrompt_textonly (map summarize_textonly enough)) # rest)) \<and>
   analyzeWeeklyPatterns e [] w = (Inr (failed ''No reflections to analyze''), w) \<and>
   (some \<noteq> [] \<and> summarize_all some = Inr reflectionsSummary \<longrightarrow>
      (\<exists>rest. trace (snd (analyzeWeeklyPatterns e some w)) =
         trace w @ Generate (WeeklyPrompt (length some) reflectionsSummary) # rest))"
proof (intro conjI impI)
  assume "length few < 3"
  then show "analyzeWeeklyPatterns_textonly e few w =
      (failed ''Not enough reflections for weekly analysis'', w)"
    by (rule weekly_textonly_few)
next
  assume "3 \<le> length enough"
  then show "\<exists>rest. trace (snd (analyzeWeeklyPatterns_textonly e enough w)) =
      trace w @ Generate (WeeklyPrompt_textonly (map summarize_textonly enough)) # rest"
    by (rule weekly_textonly_enough)
next
  show "analyzeWeeklyPatterns e [] w = (Inr (failed ''No reflections to analyze''), w)"
    by (simp add: analyzeWeeklyPatterns_def)
next
  assume "some \<noteq> [] \<and> summarize_all some = Inr reflectionsSummary"
  then show "\<exists>rest. trace (snd (analyzeWeeklyPatterns e some w)) =
      trace w @ Generate (WeeklyPrompt (length some) reflectionsSummary) # rest"
    using weekly_first_some by blast
qed

theorem weekly_gate_witness:
  "analyzeWeeklyPatterns_textonly (answering ''{}'')
      [sample_reflection ''u1'', sample_reflection ''u1''] empty_world =
      (failed ''Not enough reflections for weekly analysis'', empty_world) \<and>
   (\<exists>rest. trace (snd (analyzeWeeklyPatterns_textonly (answering ''{}'')
      [sample_reflection ''u1'', sample_reflection ''u1'', sample_reflection ''u1''] empty_world)) =
      Generate (WeeklyPrompt_textonly (map summarize_textonly
        [sample_reflection ''u1'', sample_reflection ''u1'', sample_reflection ''u1''])) # rest) \<and>
   (\<exists>rest. trace (snd (analyzeWeeklyPatterns (answering ''{}'')
      [sample_reflection ''u1''] empty_world)) =
      Generate (WeeklyPrompt 1 [sample_summary]) # rest)"
proof -
  let ?r = "sample_reflection ''u1''"
  have h1: "length [?r, ?r] < 3" by simp
  have h2: "3 \<le> length [?r, ?r, ?r]" by simp
  have h3: "[?r] \<noteq> []" by simp
  have h4: "summarize_all [?r] = Inr [sample_summary]" by code_simp
  have t: "trace empty_world = []" by (simp add: empty_world_def)
  show ?thesis
    using weekly_gate [where few = "[?r, ?r]" and enough = "[?r, ?r, ?r]" and some = "[?r]"
        and reflectionsSummary = "[sample_summary]" and e = "answering ''{}''"
        and w = empty_world] h1 h2 h3 h4
    by (simp add: t)
qed

theorem weekly_gate_counterexample:
  "analyzeWeeklyPatterns (answering ''{}'')
      [sample_reflection ''u1'', sample_reflection ''u1''] empty_world =
     (Inr (succeeded (JObject [])),
      \<lparr>trace = [Generate (WeeklyPrompt 2
          [sample_summary, sample_summary])],
       docs = []\<rparr>)"
proof -
  let ?r = "sample_reflection ''u1''"
  let ?s = sample_summary
  have g: "gemini (answering ''{}'') (generate_count empty_world) (WeeklyPrompt 2 [?s, ?s]) =
      Inr (Inr ''{}'')"
    by (simp add: answering_def)
  have s: "summarize_all [?r, ?r] = Inr [?s, ?s]"
    by (simp add: summarize_def sample_reflection_def sample_summary_def)
  have len: "length [?r, ?r] = 2" by simp
  have "analyzeWeeklyPatterns (answering ''{}'') [?r, ?r] empty_world =
      (Inr (succeeded (JObject [])), emit (Generate (WeeklyPrompt 2 [?s, ?s])) empty_world)"
    unfolding analyzeWeeklyPatterns_def s len
    using run_analysis_answer_ok [OF g sample_parse_empty_object] by simp
  then show ?thesis by (simp add: emit_def empty_world_def)
qed

text \<open>
  C4. The model throws "Too Many Requests" on every call: the retrier treats the error as
  rate-limited and retries it twice, but the \<^verbatim>\<open>catch\<close> block, which looks only for
  "429" and "RESOURCE_EXHAUSTED", reports an ordinary failure without the
  \<^verbatim>\<open>isRateLimited\<close> flag.
\<close>

theorem exhausted_too_many_requests:
  "analyzeTextReflection (failing ''Too Many Requests'') ''hello'' empty_world =
     (Inr \<lparr>success = False, data = None, error = Some ''Too Many Requests'',
           isRateLimited = False\<rparr>,
      \<lparr>trace = [Generate (TextPrompt ''hello''), Console (RateLimitedRetrying 2000 1 3),
                Sleep 2000,
                Generate (TextPrompt ''hello''), Console (RateLimitedRetrying 4000 2 3),
                Sleep 4000,
                Generate (TextPrompt ''hello''),
                Console (AnalysisErrorLine ''Text analysis error:''
                  (Thrown (Error ''Too Many Requests'')))],
       docs = []\<rparr>)"
  by (simp add: analyzeTextReflection_def run_analysis_def attempt_analysis_def on_error_def
      failed_def run_simps)









subsection \<open>The store\<close>

lemma docs_emit: "docs (emit ev w) = docs w"
  by (simp add: emit_def)

lemma docs_retry_loop:
  "\<forall>w. docs (snd (fn w)) = docs w \<Longrightarrow>
   docs (snd (retry_loop fn maxRetries initialDelay attempt lastError w)) = docs w"
proof (induction fn maxRetries initialDelay attempt lastError w rule: retry_loop.induct)
  case (1 fn maxRetries initialDelay attempt lastError w)
  note keep = "1.prems"
  obtain r w' where fnw: "fn w = (r, w')" by (cases "fn w")
  from keep fnw have w': "docs w' = docs w" by (metis snd_conv)
  show ?case
  proof (cases "int attempt < maxRetries")
    case False
    then show ?thesis by (subst retry_loop.simps) simp
  next
    case lt: True
    show ?thesis
    proof (cases r)
      case (Inr v)
      then show ?thesis using lt fnw w' by (simp add: retry_loop_return)
    next
      case (Inl err)
      show ?thesis
      proof (cases "rate_limit_signal err")
        case False
        then show ?thesis using lt fnw w' Inl by (simp add: retry_loop_fail_fast)
      next
        case rl: True
        show ?thesis
        proof (cases "int attempt < maxRetries - 1")
          case True
          have c: "rate_limit_signal err \<and> int attempt < maxRetries - 1" using rl True by simp
          have step: "retry_loop fn maxRetries initialDelay attempt lastError w =
              retry_loop fn maxRetries initialDelay (Suc attempt) (Thrown err)
                (backoff (initialDelay * 2 ^ attempt) (Suc attempt) maxRetries w')"
            using True fnw rl unfolding Inl by (rule retry_loop_retry)
          from "1.IH"(1)[OF lt fnw[symmetric] Inl refl c refl keep]
          show ?thesis unfolding step
            by (simp add: backoff_def sleep_def docs_emit w')
        next
          case False
          have stop: "retry_loop fn maxRetries initialDelay attempt lastError w = (Inl (Thrown err), w')"
            using lt False fnw unfolding Inl by (rule retry_loop_last)
          show ?thesis unfolding stop using w' by simp
        qed
      qed
    qed
  qed
qed

lemma docs_run_analysis: "docs (snd (run_analysis label e req w)) = docs w"
proof -
  have keep: "\<forall>w. docs (snd (generateContent e req w)) = docs w"
    by (simp add: generateContent_def docs_emit)
  obtain r w' where rw: "retryWithBackoff (generateContent e req) 3 2000 w = (r, w')"
    by (cases "retryWithBackoff (generateContent e req) 3 2000 w")
  have w': "docs w' = docs w"
    using docs_retry_loop [OF keep, of 3 2000 0 ThrownUndefined w] rw
    by (simp add: retryWithBackoff_def)
  show ?thesis
    using w'
    by (auto simp: run_analysis_def attempt_analysis_def rw on_error_def Let_def docs_emit
        split: sum.splits thrown.splits)
qed

lemma docs_callGemini: "docs (snd (callGemini e req w)) = docs w"
  by (auto simp: callGemini_def generateContent_def Let_def docs_emit split: sum.splits)

lemma docs_analyzeTextReflection_textonly:
  "docs (snd (analyzeTextReflection_textonly e textInput w)) = docs w"
  using docs_callGemini [of e "TextPrompt_textonly textInput" w]
  by (cases "callGemini e (TextPrompt_textonly textInput) w")
    (auto simp: analyzeTextReflection_textonly_def docs_emit split: sum.splits)

lemma docs_choose_analysis:
  "choose_analysis e req w = Some (r, w') \<Longrightarrow> docs w' = docs w"
  using docs_run_analysis
  by (auto simp: choose_analysis_def analyzeAudioReflection_def analyzeTextReflection_def
      split: option.splits prod.splits) (metis snd_conv)+

lemma docs_dateStr: "docs (snd (dateStr e d w)) = docs w"
  by (simp add: dateStr_def new_Date_def docs_emit split: option.splits)

lemma docs_reflectionData: "docs (snd (reflectionData e uid d a w)) = docs w"
  by (simp add: reflectionData_def new_Date_def docs_emit split: option.splits json.splits)


lemma docs_persist_fail:
  "persist e uid d a w = (Inl err, w') \<Longrightarrow> docs w' = docs w"
  using docs_reflectionData [of e uid d a w]
  by (auto simp: persist_def firestore_add_def Let_def docs_emit
      split: prod.splits sum.splits option.splits if_splits)

lemma docs_persist_ok:
  "persist e uid d a w = (Inr (i, r), w') \<Longrightarrow> docs w' = docs w @ [(i, r)]"
  using docs_reflectionData [of e uid d a w]
  by (auto simp: persist_def firestore_add_def Let_def docs_emit
      split: prod.splits sum.splits option.splits if_splits)


subsection \<open>The default date\<close>






subsection \<open>Deleting a reflection\<close>

lemma map_of_filter_other: "map_of (filter (\<lambda>(j, r). j \<noteq> i) xs) i = None"
  by (induction xs) auto

lemma delete_reflection_200:
  "status (fst (delete_reflection e req w)) = 200 \<Longrightarrow>
   (\<exists>d. map_of (docs w) (del_id req) = Some d \<and> del_userId req = Some (userId d)) \<and>
   map_of (docs (snd (delete_reflection e req w))) (del_id req) = None"
  by (auto simp: delete_reflection_def delete_reflection_try_def firestore_get_def
      firestore_delete_def Let_def docs_emit map_of_filter_other
      split: option.splits if_splits)

lemma delete_forbidden:
  assumes "firestore_fault e (firestore_calls w) (Get i) = None"
      and "map_of (docs w) i = Some doc"
      and "requester \<noteq> Some (userId doc)"
  shows "delete_reflection e \<lparr>del_id = i, del_userId = requester\<rparr> w =
      (\<lparr>status = 403, body = ErrorBody ''Unauthorized'' None\<rparr>, emit (Firestore (Get i)) w)"
  using assms
  by (auto simp: delete_reflection_def delete_reflection_try_def firestore_get_def Let_def)

lemma delete_missing:
  assumes "firestore_fault e (firestore_calls w) (Get j) = None"
      and "map_of (docs w) j = None"
  shows "delete_reflection e \<lparr>del_id = j, del_userId = anyone\<rparr> w =
      (\<lparr>status = 404, body = ErrorBody ''Reflection not found'' None\<rparr>,
       emit (Firestore (Get j)) w)"
  using assms
  by (simp add: delete_reflection_def delete_reflection_try_def firestore_get_def Let_def)

text \<open>
  C8. When Firestore answers the lookup: a request for a stored reflection by anyone but
  its owner (or without a user id) is answered 403 and the store is left as it was, so the
  record is still there; a request for an id that is not stored is answered 404; and a
  request is answered 200 only when the record exists and its \<open>userId\<close> is the
  requesting one, the record then being gone.
\<close>

theorem delete_owned:
  "(firestore_fault e (firestore_calls w) (Get i) = None \<and>
    map_of (docs w) i = Some doc \<and> requester \<noteq> Some (userId doc) \<longrightarrow>
      delete_reflection e \<lparr>del_id = i, del_userId = requester\<rparr> w =
        (\<lparr>status = 403, body = ErrorBody ''Unauthorized'' None\<rparr>,
         emit (Firestore (Get i)) w) \<and>
      docs (snd (delete_reflection e \<lparr>del_id = i, del_userId = requester\<rparr> w)) = docs w \<and>
      map_of (docs (snd (delete_reflection e \<lparr>del_id = i, del_userId = requester\<rparr> w))) i =
        Some doc) \<and>
   (firestore_fault e (firestore_calls w) (Get j) = None \<and> map_of (docs w) j = None \<longrightarrow>
      delete_reflection e \<lparr>del_id = j, del_userId = anyone\<rparr> w =
        (\<lparr>status = 404, body = ErrorBody ''Reflection not found'' None\<rparr>,
         emit (Firestore (Get j)) w)) \<and>
   (status (fst (delete_reflection e req w)) = 200 \<longrightarrow>
      (\<exists>d. map_of (docs w) (del_id req) = Some d \<and> del_userId req = Some (userId d)) \<and>
      map_of (docs (snd (delete_reflection e req w))) (del_id req) = None)"
proof (intro conjI impI)
  assume a: "firestore_fault e (firestore_calls w) (Get i) = None \<and>
    map_of (docs w) i = Some doc \<and> requester \<noteq> Some (userId doc)"
  then have f: "delete_reflection e \<lparr>del_id = i, del_userId = requester\<rparr> w =
      (\<lparr>status = 403, body = ErrorBody ''Unauthorized'' None\<rparr>, emit (Firestore (Get i)) w)"
    using delete_forbidden by blast
  show "delete_reflection e \<lparr>del_id = i, del_userId = requester\<rparr> w =
      (\<lparr>status = 403, body = ErrorBody ''Unauthorized'' None\<rparr>, emit (Firestore (Get i)) w)"
    by (rule f)
  show "docs (snd (delete_reflection e \<lparr>del_id = i, del_userId = requester\<rparr> w)) = docs w"
    unfolding f by (simp add: docs_emit)
  show "map_of (docs (snd (delete_reflection e \<lparr>del_id = i, del_userId = requester\<rparr> w))) i =
      Some doc"
    unfolding f using a by (simp add: docs_emit)
next
  assume "firestore_fault e (firestore_calls w) (Get j) = None \<and> map_of (docs w) j = None"
  then show "delete_reflection e \<lparr>del_id = j, del_userId = anyone\<rparr> w =
      (\<lparr>status = 404, body = ErrorBody ''Reflection not found'' None\<rparr>,
       emit (Firestore (Get j)) w)"
    using delete_missing by blast
next
  assume s: "status (fst (delete_reflection e req w)) = 200"
  from delete_reflection_200 [OF s]
  show "\<exists>d. map_of (docs w) (del_id req) = Some d \<and> del_userId req = Some (userId d)"
    and "map_of (docs (snd (delete_reflection e req w))) (del_id req) = None"
    by blast+
qed

theorem delete_owned_witness:
  "delete_reflection (answering []) \<lparr>del_id = ''doc-1'', del_userId = Some ''u2''\<rparr> one_doc_world =
     (\<lparr>status = 403, body = ErrorBody ''Unauthorized'' None\<rparr>,
      \<lparr>trace = [Firestore (Get ''doc-1'')], docs = [(''doc-1'', sample_reflection ''u1'')]\<rparr>) \<and>
   delete_reflection (answering []) \<lparr>del_id = ''doc-2'', del_userId = Some ''u1''\<rparr> one_doc_world =
     (\<lparr>status = 404, body = ErrorBody ''Reflection not found'' None\<rparr>,
      \<lparr>trace = [Firestore (Get ''doc-2'')], docs = [(''doc-1'', sample_reflection ''u1'')]\<rparr>) \<and>
   status (fst (delete_reflection (answering [])
     \<lparr>del_id = ''doc-1'', del_userId = Some ''u1''\<rparr> one_doc_world)) = 200 \<and>
   map_of (docs (snd (delete_reflection (answering [])
     \<lparr>del_id = ''doc-1'', del_userId = Some ''u1''\<rparr> one_doc_world))) ''doc-1'' = None"
proof -
  let ?e = "answering []"
  have h1: "firestore_fault ?e (firestore_calls one_doc_world) (Get ''doc-1'') = None"
    by (simp add: answering_def)
  have h2: "map_of (docs one_doc_world) ''doc-1'' = Some (sample_reflection ''u1'')"
    by (simp add: one_doc_world_def)
  have h3: "Some ''u2'' \<noteq> Some (userId (sample_reflection ''u1''))"
    by (simp add: sample_reflection_def)
  have h4: "firestore_fault ?e (firestore_calls one_doc_world) (Get ''doc-2'') = None"
    by (simp add: answering_def)
  have h5: "map_of (docs one_doc_world) ''doc-2'' = None"
    by (simp add: one_doc_world_def)
  have h6: "status (fst (delete_reflection ?e
      \<lparr>del_id = ''doc-1'', del_userId = Some ''u1''\<rparr> one_doc_world)) = 200"
    by code_simp
  show ?thesis
    using delete_owned [where e = ?e and w = one_doc_world and i = "''doc-1''"
        and doc = "sample_reflection ''u1''" and requester = "Some ''u2''" and j = "''doc-2''"
        and anyone = "Some ''u1''" and req = "\<lparr>del_id = ''doc-1'', del_userId = Some ''u1''\<rparr>"]
      h1 h2 h3 h4 h5 h6
    by (simp add: emit_def one_doc_world_def)
qed

subsection \<open>The daily route\<close>

lemma analyze_daily_no_user:
  "truthy (req_userId req) = None \<Longrightarrow>
   analyze_daily e req w = (\<lparr>status = 400, body = ErrorBody ''User ID is required'' None\<rparr>, w)"
  by (simp add: analyze_daily_def analyze_daily_try_def)

lemma analyze_daily_no_input:
  "truthy (req_userId req) = Some uid \<Longrightarrow> dateStr e (req_date req) w = (d, w1) \<Longrightarrow>
   choose_analysis e req w1 = None \<Longrightarrow>
   analyze_daily e req w =
     (\<lparr>status = 400, body = ErrorBody ''Audio file or text input required'' None\<rparr>, w1)"
  by (simp add: analyze_daily_def analyze_daily_try_def)

lemma analyze_daily_thrown:
  "truthy (req_userId req) = Some uid \<Longrightarrow> dateStr e (req_date req) w = (d, w1) \<Longrightarrow>
   choose_analysis e req w1 = Some (Inl err, w2) \<Longrightarrow>
   analyze_daily e req w =
     (\<lparr>status = 500, body = ErrorBody ''Failed to analyze reflection'' (Some (message err))\<rparr>,
      emit (Console (RouteErrorLine ''Analysis error:'' err)) w2)"
  by (simp add: analyze_daily_def analyze_daily_try_def)

lemma analyze_daily_failed:
  "truthy (req_userId req) = Some uid \<Longrightarrow> dateStr e (req_date req) w = (d, w1) \<Longrightarrow>
   choose_analysis e req w1 = Some (Inr a, w2) \<Longrightarrow> \<not> success a \<Longrightarrow>
   analyze_daily e req w =
     (\<lparr>status = 500, body = ErrorBody ''Analysis failed'' (error a)\<rparr>, w2)"
  by (simp add: analyze_daily_def analyze_daily_try_def)

lemma analyze_daily_not_saved:
  "truthy (req_userId req) = Some uid \<Longrightarrow> dateStr e (req_date req) w = (d, w1) \<Longrightarrow>
   choose_analysis e req w1 = Some (Inr a, w2) \<Longrightarrow> success a \<Longrightarrow>
   persist e uid d a w2 = (Inl err, w3) \<Longrightarrow>
   analyze_daily e req w =
     (\<lparr>status = 500, body = ErrorBody ''Failed to analyze reflection'' (Some (message err))\<rparr>,
      emit (Console (RouteErrorLine ''Analysis error:'' err)) w3)"
  by (simp add: analyze_daily_def analyze_daily_try_def)

lemma analyze_daily_saved:
  "truthy (req_userId req) = Some uid \<Longrightarrow> dateStr e (req_date req) w = (d, w1) \<Longrightarrow>
   choose_analysis e req w1 = Some (Inr a, w2) \<Longrightarrow> success a \<Longrightarrow>
   persist e uid d a w2 = (Inr (i, r), w3) \<Longrightarrow>
   analyze_daily e req w = (\<lparr>status = 200, body = SavedBody i r\<rparr>, w3)"
  by (simp add: analyze_daily_def analyze_daily_try_def)

text \<open>The six ways through the handler of the first variant.\<close>

lemma analyze_daily_cases:
  obtains
    (no_user) "truthy (req_userId req) = None"
  | (no_input) uid d w1 where "truthy (req_userId req) = Some uid"
      "dateStr e (req_date req) w = (d, w1)" "choose_analysis e req w1 = None"
  | (thrown) uid d w1 err w2 where "truthy (req_userId req) = Some uid"
      "dateStr e (req_date req) w = (d, w1)" "choose_analysis e req w1 = Some (Inl err, w2)"
  | (failed) uid d w1 a w2 where "truthy (req_userId req) = Some uid"
      "dateStr e (req_date req) w = (d, w1)" "choose_analysis e req w1 = Some (Inr a, w2)"
      "\<not> success a"
  | (not_saved) uid d w1 a w2 err w3 where "truthy (req_userId req) = Some uid"
      "dateStr e (req_date req) w = (d, w1)" "choose_analysis e req w1 = Some (Inr a, w2)"
      "success a" "persist e uid d a w2 = (Inl err, w3)"
  | (saved) uid d w1 a w2 i r w3 where "truthy (req_userId req) = Some uid"
      "dateStr e (req_date req) w = (d, w1)" "choose_analysis e req w1 = Some (Inr a, w2)"
      "success a" "persist e uid d a w2 = (Inr (i, r), w3)"
proof (cases "truthy (req_userId req)")
  case None
  then show ?thesis by (rule no_user)
next
  case (Some uid)
  obtain d w1 where ds: "dateStr e (req_date req) w = (d, w1)"
    by (cases "dateStr e (req_date req) w")
  show ?thesis
  proof (cases "choose_analysis e req w1")
    case None
    with Some ds show ?thesis by (rule no_input)
  next
    case ch: (Some p)
    obtain x w2 where p: "p = (x, w2)" by (cases p)
    show ?thesis
    proof (cases x)
      case (Inl err)
      with Some ds ch p show ?thesis by (intro thrown) simp_all
    next
      case (Inr a)
      show ?thesis
      proof (cases "success a")
        case False
        with Some ds ch p Inr show ?thesis by (intro failed) simp_all
      next
        case True
        obtain y w3 where ps: "persist e uid d a w2 = (y, w3)" by (cases "persist e uid d a w2")
        show ?thesis
        proof (cases y)
          case (Inl err)
          with Some ds ch p Inr True ps show ?thesis by (intro not_saved) simp_all
        next
          case yr: (Inr ir)
          obtain i r where "ir = (i, r)" by (cases ir)
          with Some ds ch p Inr True ps yr show ?thesis by (intro saved) simp_all
        qed
      qed
    qed
  qed
qed




lemma analyze_daily_store:
  "docs (snd (analyze_daily e req w)) = docs w \<or>
   (\<exists>i r d w1 a w2. fst (analyze_daily e req w) = \<lparr>status = 200, body = SavedBody i r\<rparr> \<and>
      docs (snd (analyze_daily e req w)) = docs w @ [(i, r)] \<and>
      dateStr e (req_date req) w = (d, w1) \<and>
      choose_analysis e req w1 = Some (Inr a, w2) \<and> success a)"
proof (cases rule: analyze_daily_cases [where req = req and e = e and w = w])
  case no_user
  then show ?thesis by (simp add: analyze_daily_no_user)
next
  case (no_input uid d w1)
  then show ?thesis using docs_dateStr [of e "req_date req" w]
    by (simp add: analyze_daily_no_input)
next
  case (thrown uid d w1 err w2)
  then show ?thesis
    using docs_dateStr [of e "req_date req" w] docs_choose_analysis [of e req w1 "Inl err" w2]
    by (simp add: analyze_daily_thrown docs_emit)
next
  case (failed uid d w1 a w2)
  then show ?thesis
    using docs_dateStr [of e "req_date req" w] docs_choose_analysis [of e req w1 "Inr a" w2]
    by (simp add: analyze_daily_failed)
next
  case (not_saved uid d w1 a w2 err w3)
  then show ?thesis
    using docs_dateStr [of e "req_date req" w] docs_choose_analysis [of e req w1 "Inr a" w2]
      docs_persist_fail [of e uid d a w2 err w3]
    by (simp add: analyze_daily_not_saved docs_emit)
next
  case (saved uid d w1 a w2 i r w3)
  then have "docs w3 = docs w @ [(i, r)]"
    using docs_dateStr [of e "req_date req" w] docs_choose_analysis [of e req w1 "Inr a" w2]
      docs_persist_ok [of e uid d a w2 i r w3]
    by simp
  with saved show ?thesis by (auto simp: analyze_daily_saved)
qed


subsection \<open>The daily route, text-only variant\<close>

lemma analyze_daily_textonly_invalid:
  "truthy (req_userId req) = None \<or> truthy (req_textInput req) = None \<Longrightarrow>
   analyze_daily_textonly e req w =
     (\<lparr>status = 400, body = FailureBody (Some ''userId and textInput are required'')\<rparr>,
      emit (Console (ReqBody req)) w)"
  by (auto simp: analyze_daily_textonly_def analyze_daily_try_textonly_def Let_def
      split: option.splits)

lemma analyze_daily_textonly_failed:
  "truthy (req_userId req) = Some uid \<Longrightarrow> truthy (req_textInput req) = Some textInput \<Longrightarrow>
   dateStr e (req_date req) (emit (Console (ReqBody req)) w) = (d, w1) \<Longrightarrow>
   analyzeTextReflection_textonly e textInput w1 = (a, w2) \<Longrightarrow> \<not> success a \<Longrightarrow>
   analyze_daily_textonly e req w = (\<lparr>status = 500, body = FailureBody (error a)\<rparr>, w2)"
  by (simp add: analyze_daily_textonly_def analyze_daily_try_textonly_def Let_def)

lemma analyze_daily_textonly_not_saved:
  "truthy (req_userId req) = Some uid \<Longrightarrow> truthy (req_textInput req) = Some textInput \<Longrightarrow>
   dateStr e (req_date req) (emit (Console (ReqBody req)) w) = (d, w1) \<Longrightarrow>
   analyzeTextReflection_textonly e textInput w1 = (a, w2) \<Longrightarrow> success a \<Longrightarrow>
   persist e uid d a w2 = (Inl err, w3) \<Longrightarrow>
   analyze_daily_textonly e req w =
     (\<lparr>status = 500, body = FailureBody (Some ''Failed to analyze reflection'')\<rparr>,
      emit (Console (RouteErrorLine ''DAILY ANALYSIS ROUTE ERROR:'' err)) w3)"
  by (simp add: analyze_daily_textonly_def analyze_daily_try_textonly_def Let_def)

lemma analyze_daily_textonly_saved:
  "truthy (req_userId req) = Some uid \<Longrightarrow> truthy (req_textInput req) = Some textInput \<Longrightarrow>
   dateStr e (req_date req) (emit (Console (ReqBody req)) w) = (d, w1) \<Longrightarrow>
   analyzeTextReflection_textonly e textInput w1 = (a, w2) \<Longrightarrow> success a \<Longrightarrow>
   persist e uid d a w2 = (Inr (i, r), w3) \<Longrightarrow>
   analyze_daily_textonly e req w = (\<lparr>status = 200, body = SavedBody_textonly i r\<rparr>, w3)"
  by (simp add: analyze_daily_textonly_def analyze_daily_try_textonly_def Let_def)

lemma analyze_daily_textonly_cases:
  obtains
    (invalid) "truthy (req_userId req) = None \<or> truthy (req_textInput req) = None"
  | (failed) uid textInput d w1 a w2 where "truthy (req_userId req) = Some uid"
      "truthy (req_textInput req) = Some textInput"
      "dateStr e (req_date req) (emit (Console (ReqBody req)) w) = (d, w1)"
      "analyzeTextReflection_textonly e textInput w1 = (a, w2)" "\<not> success a"
  | (not_saved) uid textInput d w1 a w2 err w3 where "truthy (req_userId req) = Some uid"
      "truthy (req_textInput req) = Some textInput"
      "dateStr e (req_date req) (emit (Console (ReqBody req)) w) = (d, w1)"
      "analyzeTextReflection_textonly e textInput w1 = (a, w2)" "success a"
      "persist e uid d a w2 = (Inl err, w3)"
  | (saved) uid textInput d w1 a w2 i r w3 where "truthy (req_userId req) = Some uid"
      "truthy (req_textInput req) = Some textInput"
      "dateStr e (req_date req) (emit (Console (ReqBody req)) w) = (d, w1)"
      "analyzeTextReflection_textonly e textInput w1 = (a, w2)" "success a"
      "persist e uid d a w2 = (Inr (i, r), w3)"
proof (cases "truthy (req_userId req)")
  case None
  then show ?thesis by (intro invalid) simp
next
  case u: (Some uid)
  show ?thesis
  proof (cases "truthy (req_textInput req)")
    case None
    then show ?thesis by (intro invalid) simp
  next
    case t: (Some textInput)
    obtain d w1 where ds: "dateStr e (req_date req) (emit (Console (ReqBody req)) w) = (d, w1)"
      by (cases "dateStr e (req_date req) (emit (Console (ReqBody req)) w)")
    obtain a w2 where an: "analyzeTextReflection_textonly e textInput w1 = (a, w2)"
      by (cases "analyzeTextReflection_textonly e textInput w1")
    show ?thesis
    proof (cases "success a")
      case False
      with u t ds an show ?thesis by (rule failed)
    next
      case True
      obtain y w3 where ps: "persist e uid d a w2 = (y, w3)" by (cases "persist e uid d a w2")
      show ?thesis
      proof (cases y)
        case (Inl err)
        with u t ds an True ps show ?thesis by (intro not_saved) simp_all
      next
        case yr: (Inr ir)
        obtain i r where "ir = (i, r)" by (cases ir)
        with u t ds an True ps yr show ?thesis by (intro saved) simp_all
      qed
    qed
  qed
qed




lemma analyze_daily_textonly_store:
  "docs (snd (analyze_daily_textonly e req w)) = docs w \<or>
   (\<exists>i r textInput d w1 a w2.
      fst (analyze_daily_textonly e req w) = \<lparr>status = 200, body = SavedBody_textonly i r\<rparr> \<and>
      docs (snd (analyze_daily_textonly e req w)) = docs w @ [(i, r)] \<and>
      truthy (req_textInput req) = Some textInput \<and>
      dateStr e (req_date req) (emit (Console (ReqBody req)) w) = (d, w1) \<and>
      analyzeTextReflection_textonly e textInput w1 = (a, w2) \<and> success a)"
proof (cases rule: analyze_daily_textonly_cases [where req = req and e = e and w = w])
  case invalid
  then show ?thesis using analyze_daily_textonly_invalid [OF invalid, of e w]
    by (simp add: docs_emit)
next
  case (failed uid textInput d w1 a w2)
  then show ?thesis
    using docs_dateStr [of e "req_date req" "emit (Console (ReqBody req)) w"]
      docs_analyzeTextReflection_textonly [of e textInput w1]
    by (simp add: analyze_daily_textonly_failed docs_emit)
next
  case (not_saved uid textInput d w1 a w2 err w3)
  then show ?thesis
    using docs_dateStr [of e "req_date req" "emit (Console (ReqBody req)) w"]
      docs_analyzeTextReflection_textonly [of e textInput w1]
      docs_persist_fail [of e uid d a w2 err w3]
    by (simp add: analyze_daily_textonly_not_saved docs_emit)
next
  case (saved uid textInput d w1 a w2 i r w3)
  then have "docs w3 = docs w @ [(i, r)]"
    using docs_dateStr [of e "req_date req" "emit (Console (ReqBody req)) w"]
      docs_analyzeTextReflection_textonly [of e textInput w1]
      docs_persist_ok [of e uid d a w2 i r w3]
    by (simp add: docs_emit)
  with saved show ?thesis by (auto simp: analyze_daily_textonly_saved)
qed

subsection \<open>Validation and the default date\<close>





lemma analyze_daily_failed_keeps:
  assumes "truthy (req_userId req) = Some uid"
      and "dateStr e (req_date req) w = (d, wa)"
      and "choose_analysis e req wa = Some (Inr a, wb)"
      and "\<not> success a"
  shows "analyze_daily e req w =
           (\<lparr>status = 500, body = ErrorBody ''Analysis failed'' (error a)\<rparr>, wb) \<and>
         docs wb = docs w"
proof -
  have keep: "docs wb = docs w"
    using docs_dateStr [of e "req_date req" w] docs_choose_analysis [OF assms(3)] assms(2)
    by simp
  show ?thesis using analyze_daily_failed [OF assms] keep by simp
qed

lemma analyze_daily_textonly_failed_keeps:
  assumes "truthy (req_userId req) = Some uid"
      and "truthy (req_textInput req) = Some textInput"
      and "dateStr e (req_date req) (emit (Console (ReqBody req)) w) = (d, wa)"
      and "analyzeTextReflection_textonly e textInput wa = (a, wb)"
      and "\<not> success a"
  shows "analyze_daily_textonly e req w =
           (\<lparr>status = 500, body = FailureBody (error a)\<rparr>, wb) \<and>
         docs wb = docs w"
proof -
  have keep: "docs wb = docs w"
    using docs_dateStr [of e "req_date req" "emit (Console (ReqBody req)) w"]
      docs_analyzeTextReflection_textonly [of e textInput wa] assms(3,4)
    by (simp add: docs_emit)
  show ?thesis using analyze_daily_textonly_failed [OF assms] keep by simp
qed

text \<open>
  C10. When the analysis of a valid request returns a failure result, the first variant
  answers 500 "Analysis failed" and the text-only variant answers 500 with the error, and
  the store is as it was. In both variants a request either leaves the store as it was
  or adds the one document of its 200 answer, and then its analysis returned a success.
\<close>

theorem failed_analysis_writes_nothing:
  "(truthy (req_userId req) = Some uid \<and> dateStr e (req_date req) w = (d, wa) \<and>
    choose_analysis e req wa = Some (Inr a, wb) \<and> \<not> success a \<longrightarrow>
      analyze_daily e req w =
        (\<lparr>status = 500, body = ErrorBody ''Analysis failed'' (error a)\<rparr>, wb) \<and>
      docs wb = docs w) \<and>
   (truthy (req_userId req) = Some uid \<and> truthy (req_textInput req) = Some textInput \<and>
    dateStr e (req_date req) (emit (Console (ReqBody req)) w) = (d, wa) \<and>
    analyzeTextReflection_textonly e textInput wa = (a, wb) \<and> \<not> success a \<longrightarrow>
      analyze_daily_textonly e req w =
        (\<lparr>status = 500, body = FailureBody (error a)\<rparr>, wb) \<and>
      docs wb = docs w) \<and>
   (docs (snd (analyze_daily e q v)) = docs v \<or>
    (\<exists>i r x va b vb.
       fst (analyze_daily e q v) = \<lparr>status = 200, body = SavedBody i r\<rparr> \<and>
       docs (snd (analyze_daily e q v)) = docs v @ [(i, r)] \<and>
       dateStr e (req_date q) v = (x, va) \<and>
       choose_analysis e q va = Some (Inr b, vb) \<and> success b)) \<and>
   (docs (snd (analyze_daily_textonly e q v)) = docs v \<or>
    (\<exists>i r t x va b vb.
       fst (analyze_daily_textonly e q v) =
         \<lparr>status = 200, body = SavedBody_textonly i r\<rparr> \<and>
       docs (snd (analyze_daily_textonly e q v)) = docs v @ [(i, r)] \<and>
       truthy (req_textInput q) = Some t \<and>
       dateStr e (req_date q) (emit (Console (ReqBody q)) v) = (x, va) \<and>
       analyzeTextReflection_textonly e t va = (b, vb) \<and> success b))"
proof (intro conjI impI)
  assume h: "truthy (req_userId req) = Some uid \<and> dateStr e (req_date req) w = (d, wa) \<and>
    choose_analysis e req wa = Some (Inr a, wb) \<and> \<not> success a"
  then have "analyze_daily e req w =
        (\<lparr>status = 500, body = ErrorBody ''Analysis failed'' (error a)\<rparr>, wb) \<and>
      docs wb = docs w"
    using analyze_daily_failed_keeps by blast
  then show "analyze_daily e req w =
        (\<lparr>status = 500, body = ErrorBody ''Analysis failed'' (error a)\<rparr>, wb)"
    and "docs wb = docs w" by blast+
next
  assume h: "truthy (req_userId req) = Some uid \<and> truthy (req_textInput req) = Some textInput \<and>
    dateStr e (req_date req) (emit (Console (ReqBody req)) w) = (d, wa) \<and>
    analyzeTextReflection_textonly e textInput wa = (a, wb) \<and> \<not> success a"
  then have "analyze_daily_textonly e req w =
        (\<lparr>status = 500, body = FailureBody (error a)\<rparr>, wb) \<and>
      docs wb = docs w"
    using analyze_daily_textonly_failed_keeps by blast
  then show "analyze_daily_textonly e req w =
        (\<lparr>status = 500, body = FailureBody (error a)\<rparr>, wb)"
    and "docs wb = docs w" by blast+
next
  show "docs (snd (analyze_daily e q v)) = docs v \<or>
    (\<exists>i r x va b vb.
       fst (analyze_daily e q v) = \<lparr>status = 200, body = SavedBody i r\<rparr> \<and>
       docs (snd (analyze_daily e q v)) = docs v @ [(i, r)] \<and>
       dateStr e (req_date q) v = (x, va) \<and>
       choose_analysis e q va = Some (Inr b, vb) \<and> success b)"
    by (rule analyze_daily_store)
next
  show "docs (snd (analyze_daily_textonly e q v)) = docs v \<or>
    (\<exists>i r t x va b vb.
       fst (analyze_daily_textonly e q v) =
         \<lparr>status = 200, body = SavedBody_textonly i r\<rparr> \<and>
       docs (snd (analyze_daily_textonly e q v)) = docs v @ [(i, r)] \<and>
       truthy (req_textInput q) = Some t \<and>
       dateStr e (req_date q) (emit (Console (ReqBody q)) v) = (x, va) \<and>
       analyzeTextReflection_textonly e t va = (b, vb) \<and> success b)"
    by (rule analyze_daily_textonly_store)
qed

theorem failed_analysis_writes_nothing_witness:
  "analyze_daily (failing ''boom'') text_request empty_world =
     (\<lparr>status = 500, body = ErrorBody ''Analysis failed'' (Some ''boom'')\<rparr>,
      \<lparr>trace = [Now, Generate (TextPrompt ''hello''),
                Console (AnalysisErrorLine ''Text analysis error:'' (Thrown (Error ''boom'')))],
       docs = []\<rparr>) \<and>
   analyze_daily_textonly (failing ''boom'') text_request empty_world =
     (\<lparr>status = 500, body = FailureBody (Some ''boom'')\<rparr>,
      \<lparr>trace = [Console (ReqBody text_request), Now, Generate (TextPrompt_textonly ''hello''),
                Console (ErrorMessageLine ''TEXT ANALYSIS ERROR:'' ''boom'')],
       docs = []\<rparr>)"
proof -
  let ?e = "failing ''boom''"
  let ?wa = "\<lparr>trace = [Now], docs = []\<rparr>"
  let ?wb = "\<lparr>trace = [Now, Generate (TextPrompt ''hello''),
      Console (AnalysisErrorLine ''Text analysis error:'' (Thrown (Error ''boom'')))], docs = []\<rparr>"
  let ?va = "\<lparr>trace = [Console (ReqBody text_request), Now], docs = []\<rparr>"
  let ?vb = "\<lparr>trace = [Console (ReqBody text_request), Now, Generate (TextPrompt_textonly ''hello''),
      Console (ErrorMessageLine ''TEXT ANALYSIS ERROR:'' ''boom'')], docs = []\<rparr>"
  have h1: "truthy (req_userId text_request) = Some ''u1''" by code_simp
  have h2: "dateStr ?e (req_date text_request) empty_world = (''2026-01-15'', ?wa)" by code_simp
  have h3: "choose_analysis ?e text_request ?wa = Some (Inr (failed ''boom''), ?wb)" by code_simp
  have h4: "\<not> success (failed ''boom'')" by code_simp
  have h5: "truthy (req_textInput text_request) = Some ''hello''" by code_simp
  have h6: "dateStr ?e (req_date text_request) (emit (Console (ReqBody text_request)) empty_world) =
      (''2026-01-15'', ?va)" by code_simp
  have h7: "analyzeTextReflection_textonly ?e ''hello'' ?va = (failed ''boom'', ?vb)" by code_simp
  have e: "error (failed ''boom'') = Some ''boom''" by code_simp
  note A = failed_analysis_writes_nothing [where e = ?e and req = text_request
      and w = empty_world and uid = "''u1''" and d = "''2026-01-15''" and wa = ?wa and wb = ?wb
      and a = "failed ''boom''" and textInput = "''hello''"]
  note B = failed_analysis_writes_nothing [where e = ?e and req = text_request
      and w = empty_world and uid = "''u1''" and d = "''2026-01-15''" and wa = ?va and wb = ?vb
      and a = "failed ''boom''" and textInput = "''hello''"]
  show ?thesis
    using A B h1 h2 h3 h4 h5 h6 h7 by (simp add: e)
qed

theorem null_analysis_counterexample:
  "choose_analysis (answering ''null'') text_request \<lparr>trace = [Now], docs = []\<rparr> =
     Some (Inr \<lparr>success = True, data = Some JNull, error = None, isRateLimited = False\<rparr>,
           \<lparr>trace = [Now, Generate (TextPrompt ''hello'')], docs = []\<rparr>) \<and>
   analyze_daily (answering ''null'') text_request empty_world =
     (\<lparr>status = 500,
       body = ErrorBody ''Failed to analyze reflection''
         (Some ''Cannot read properties of null (reading 'transcript')'')\<rparr>,
      \<lparr>trace = [Now, Generate (TextPrompt ''hello''),
                Console (RouteErrorLine ''Analysis error:''
                  (Error ''Cannot read properties of null (reading 'transcript')''))],
       docs = []\<rparr>)"
  by code_simp

end
